theory Spec2Isabelle
  imports
    Complex_Main
    "HOL-Library.Char_ord"
    "HOL-Library.List_Lexorder"
    "HOL-Library.Product_Lexorder"
begin

section \<open>Numeric values of the data frames\<close>

text \<open>
  Every numeric cell of the pandas frames is a float64.  A cell is modelled as a real
  number or one of the three IEEE special values.  A finite result of an operation whose
  magnitude exceeds the largest double overflows to the infinity of its sign; inside
  that range the result is exact (rounding to the nearest double is not modelled, and
  there is one zero, the positive one).  \<open>NaN\<close> is also pandas' missing value.
\<close>

datatype fval = Fin real | PInf | MInf | NaN

definition max_float :: real where
  "max_float = (2 ^ 53 - 1) * 2 ^ 971"

definition fin :: "real \<Rightarrow> fval" where
  "fin x = (if x > max_float then PInf else if x < - max_float then MInf else Fin x)"

fun isna :: "fval \<Rightarrow> bool" where
  "isna NaN = True"
| "isna _ = False"

fun fneg :: "fval \<Rightarrow> fval" where
  "fneg (Fin a) = Fin (- a)"
| "fneg PInf = MInf"
| "fneg MInf = PInf"
| "fneg NaN = NaN"

fun fadd :: "fval \<Rightarrow> fval \<Rightarrow> fval" where
  "fadd NaN _ = NaN"
| "fadd _ NaN = NaN"
| "fadd (Fin a) (Fin b) = fin (a + b)"
| "fadd PInf MInf = NaN"
| "fadd MInf PInf = NaN"
| "fadd PInf _ = PInf"
| "fadd MInf _ = MInf"
| "fadd (Fin a) PInf = PInf"
| "fadd (Fin a) MInf = MInf"

definition fsub :: "fval \<Rightarrow> fval \<Rightarrow> fval" where
  "fsub a b = fadd a (fneg b)"

text \<open>Sign of a value: \<open>1\<close>, \<open>-1\<close>, or \<open>0\<close> for zero; \<open>None\<close> for NaN.\<close>

fun fsign :: "fval \<Rightarrow> int option" where
  "fsign NaN = None"
| "fsign PInf = Some 1"
| "fsign MInf = Some (- 1)"
| "fsign (Fin a) = Some (if a > 0 then 1 else if a < 0 then - 1 else 0)"

definition inf_of_sign :: "int \<Rightarrow> fval" where
  "inf_of_sign s = (if s > 0 then PInf else if s < 0 then MInf else NaN)"

fun fmul :: "fval \<Rightarrow> fval \<Rightarrow> fval" where
  "fmul (Fin a) (Fin b) = fin (a * b)"
| "fmul a b =
     (case (fsign a, fsign b) of
        (Some s, Some t) \<Rightarrow> inf_of_sign (s * t)
      | _ \<Rightarrow> NaN)"

text \<open>
  Float division never raises in numpy: a finite non-zero value over zero is an
  infinity, zero over zero and infinity over infinity are NaN.
\<close>

fun fdiv :: "fval \<Rightarrow> fval \<Rightarrow> fval" where
  "fdiv NaN _ = NaN"
| "fdiv _ NaN = NaN"
| "fdiv (Fin a) (Fin b) =
     (if b \<noteq> 0 then fin (a / b)
      else if a > 0 then PInf else if a < 0 then MInf else NaN)"
| "fdiv (Fin a) _ = Fin 0"
| "fdiv PInf (Fin b) = (if b \<ge> 0 then PInf else MInf)"
| "fdiv MInf (Fin b) = (if b \<ge> 0 then MInf else PInf)"
| "fdiv _ _ = NaN"

text \<open>Comparisons: every comparison with NaN is false.\<close>

fun flt :: "fval \<Rightarrow> fval \<Rightarrow> bool" where
  "flt NaN _ = False"
| "flt _ NaN = False"
| "flt (Fin a) (Fin b) = (a < b)"
| "flt MInf MInf = False"
| "flt MInf _ = True"
| "flt _ MInf = False"
| "flt PInf _ = False"
| "flt (Fin a) PInf = True"

fun feq :: "fval \<Rightarrow> fval \<Rightarrow> bool" where
  "feq NaN _ = False"
| "feq _ NaN = False"
| "feq a b = (a = b)"

definition fgt :: "fval \<Rightarrow> fval \<Rightarrow> bool" where
  "fgt a b = flt b a"

definition fle :: "fval \<Rightarrow> fval \<Rightarrow> bool" where
  "fle a b = (flt a b \<or> feq a b)"

definition fge :: "fval \<Rightarrow> fval \<Rightarrow> bool" where
  "fge a b = fle b a"

fun fabs :: "fval \<Rightarrow> fval" where
  "fabs (Fin a) = Fin \<bar>a\<bar>"
| "fabs PInf = PInf"
| "fabs MInf = PInf"
| "fabs NaN = NaN"

text \<open>
  \<open>round(2)\<close> in numpy: the value is multiplied by 100 (which can overflow), rounded to
  the nearest integer with a tie going to the even one, and divided by 100; the special
  values are unchanged.
\<close>

definition rint :: "real \<Rightarrow> int" where
  "rint x =
     (let f = \<lfloor>x\<rfloor>; d = x - of_int f
      in if d < 1 / 2 then f
         else if d > 1 / 2 then f + 1
         else if even f then f else f + 1)"

definition round_dec :: "nat \<Rightarrow> real \<Rightarrow> real" where
  "round_dec k x = of_int (rint (x * 10 ^ k)) / 10 ^ k"

fun fround :: "nat \<Rightarrow> fval \<Rightarrow> fval" where
  "fround k (Fin a) =
     (case fin (a * 10 ^ k) of Fin y \<Rightarrow> Fin (of_int (rint y) / 10 ^ k) | v \<Rightarrow> v)"
| "fround k v = v"

section \<open>Risk classifier (app/utils/thresholds.py)\<close>

datatype arrow = ArrowNone | ArrowUp | ArrowDown | ArrowFlat

text \<open>
  \<open>waste_trend_arrow\<close> returns one of four string literals: the empty string, an
  up-arrow with a red mark, a down-arrow with a green mark, and a dash.  They are
  pictographs outside ASCII and are named by the constructors of \<open>arrow\<close>.
\<close>

definition waste_trend_arrow :: "fval \<Rightarrow> arrow" where
  "waste_trend_arrow delta =
     (if isna delta then ArrowNone
      else if fgt delta (Fin 0) then ArrowUp
      else if flt delta (Fin 0) then ArrowDown
      else ArrowFlat)"

definition distributor_status :: "fval \<Rightarrow> fval \<Rightarrow> string" where
  "distributor_status pct_from_limit pct_change =
     (if \<not> isna pct_from_limit then
        (if fge pct_from_limit (Fin 120) then ''High Risk''
         else if fge pct_from_limit (Fin 100) then ''Risk''
         else if flt pct_from_limit (Fin 80) then ''Very Good''
         else ''Good'')
      else if \<not> isna pct_change then
        (if fgt pct_change (Fin 10) then ''High Risk''
         else if fgt pct_change (Fin 0) then ''Risk''
         else if flt pct_change (Fin (- 10)) then ''Very Good''
         else ''Good'')
      else ''Not Classified'')"

definition statuses :: "string list" where
  "statuses = [''High Risk'', ''Risk'', ''Good'', ''Very Good'', ''Not Classified'']"


section \<open>Distributor-quarter table (app/utils/distributor_quarter_transform.py)\<close>

datatype error = ValueError | KeyError | HTTPException nat

text \<open>
  One row of the uploaded frame after \<open>prepare_time_columns\<close>.  A key cell that is
  missing (NaN, NaT) is \<open>None\<close>; a measure is a float cell.
\<close>

record raw_row =
  Distributor_ID :: "int option"
  US_States :: "string option"
  year_only :: "int option"
  quarter :: "string option"
  Deliveries_Quantity :: fval
  Returns_Quantity :: fval
  Waste_Allowance_Quantity :: fval
  Waste_Quantity_Sum :: fval

type_synonym dq_key = "int \<times> string \<times> int \<times> string"

record agg_row =
  dq_distributor :: int
  dq_state :: string
  dq_year :: int
  dq_quarter :: string
  total_deliveries :: fval
  total_returns :: fval
  total_waste_allowance :: fval
  total_waste :: fval

record lim_row = agg_row +
  pct_from_limit :: fval

record dq_row = lim_row +
  pct_change_Wastes_from_last_quarter :: fval
  Status :: string

definition required_cols :: "string list" where
  "required_cols =
     [''Distributor ID'', ''US States'', ''year_only'', ''quarter'',
      ''Deliveries_Quantity'', ''Returns_Quantity'',
      ''Waste_Allowance_Quantity'', ''Waste_Quantity_Sum'']"

text \<open>\<open>groupby\<close> drops a row with a missing key cell and orders the groups by key.\<close>

definition row_key :: "raw_row \<Rightarrow> dq_key option" where
  "row_key r =
     (case (Distributor_ID r, US_States r, year_only r, quarter r) of
        (Some d, Some s, Some y, Some q) \<Rightarrow> Some (d, s, y, q)
      | _ \<Rightarrow> None)"

definition group_keys :: "raw_row list \<Rightarrow> dq_key list" where
  "group_keys rows = sort (remdups (List.map_filter row_key rows))"

text \<open>The \<open>sum\<close> aggregation skips NaN cells; a group of NaN cells only sums to 0.\<close>

definition nansum :: "fval list \<Rightarrow> fval" where
  "nansum vs = foldl fadd (Fin 0) (filter (\<lambda>v. \<not> isna v) vs)"

definition agg_group :: "raw_row list \<Rightarrow> dq_key \<Rightarrow> agg_row" where
  "agg_group rows k =
     (let g = filter (\<lambda>r. row_key r = Some k) rows
      in \<lparr> dq_distributor = fst k,
           dq_state = fst (snd k),
           dq_year = fst (snd (snd k)),
           dq_quarter = snd (snd (snd k)),
           total_deliveries = fround 2 (nansum (map Deliveries_Quantity g)),
           total_returns = fround 2 (nansum (map Returns_Quantity g)),
           total_waste_allowance = fround 2 (nansum (map Waste_Allowance_Quantity g)),
           total_waste = fround 2 (nansum (map Waste_Quantity_Sum g)) \<rparr>)"

definition groupby_agg :: "raw_row list \<Rightarrow> agg_row list" where
  "groupby_agg rows = map (agg_group rows) (group_keys rows)"

text \<open>
  \<open>np.where(cond, 0, ratio)\<close> selects elementwise between arrays that were computed in
  full before the call: the ratio column below is evaluated for every row of the table.
\<close>

definition np_where :: "bool list \<Rightarrow> fval list \<Rightarrow> fval list \<Rightarrow> fval list" where
  "np_where c a b = map (\<lambda>(c, a, b). if c then a else b) (zip c (zip a b))"

definition limit_zero_col :: "agg_row list \<Rightarrow> bool list" where
  "limit_zero_col tbl =
     map (\<lambda>r. feq (total_waste_allowance r) (Fin 0) \<or> feq (total_waste r) (Fin 0)) tbl"

definition limit_ratio_col :: "agg_row list \<Rightarrow> fval list" where
  "limit_ratio_col tbl =
     map (\<lambda>r. fmul (fdiv (fsub (total_waste r) (total_waste_allowance r))
                          (total_waste_allowance r)) (Fin 100)) tbl"

definition pct_from_limit_col :: "agg_row list \<Rightarrow> fval list" where
  "pct_from_limit_col tbl =
     map (fround 2)
       (np_where (limit_zero_col tbl) (replicate (length tbl) (Fin 0)) (limit_ratio_col tbl))"

definition with_pct_from_limit :: "agg_row list \<Rightarrow> lim_row list" where
  "with_pct_from_limit tbl =
     map (\<lambda>(r, p). agg_row.extend r (lim_row.fields p)) (zip tbl (pct_from_limit_col tbl))"

text \<open>\<open>sort_values\<close> on several columns is a stable sort on the tuple of the columns.\<close>

definition sort_by_distributor_time :: "lim_row list \<Rightarrow> lim_row list" where
  "sort_by_distributor_time tbl =
     sort_key (\<lambda>r. (dq_distributor r, dq_year r, dq_quarter r)) tbl"

text \<open>
  \<open>groupby("Distributor ID")["total_waste"].pct_change()\<close>: each value over the value of
  the previous row of the same distributor, minus 1; a row with no previous row of its
  distributor is compared with a missing value.  NaN values are not forward-filled
  first (older pandas versions do that; it changes nothing where no total is NaN).
\<close>

fun group_shift :: "(int \<rightharpoonup> fval) \<Rightarrow> (int \<times> fval) list \<Rightarrow> fval list" where
  "group_shift prev [] = []"
| "group_shift prev ((d, w) # rs) =
     (case prev d of None \<Rightarrow> NaN | Some p \<Rightarrow> p) # group_shift (prev(d \<mapsto> w)) rs"

definition group_pct_change :: "(int \<times> fval) list \<Rightarrow> fval list" where
  "group_pct_change dws =
     map (\<lambda>(w, p). fsub (fdiv w p) (Fin 1)) (zip (map snd dws) (group_shift Map.empty dws))"

definition pct_change_col :: "lim_row list \<Rightarrow> fval list" where
  "pct_change_col tbl =
     map (\<lambda>v. fround 2 (fmul v (Fin 100)))
       (group_pct_change (map (\<lambda>r. (dq_distributor r, total_waste r)) tbl))"

definition with_status :: "lim_row list \<Rightarrow> dq_row list" where
  "with_status tbl =
     map (\<lambda>(r, c). lim_row.extend r
                     (dq_row.fields c (distributor_status (pct_from_limit r) c)))
       (zip tbl (pct_change_col tbl))"

definition build_table :: "raw_row list \<Rightarrow> dq_row list" where
  "build_table rows =
     with_status (sort_by_distributor_time (with_pct_from_limit (groupby_agg rows)))"

definition build_distributor_quarter_df ::
  "string list \<Rightarrow> raw_row list \<Rightarrow> error + dq_row list" where
  "build_distributor_quarter_df columns rows =
     (if filter (\<lambda>c. c \<notin> set columns) required_cols \<noteq> [] then Inl ValueError
      else Inr (build_table rows))"

section \<open>Strings and numbers of the request layer\<close>

text \<open>
  A \<open>string\<close> is a list of bytes; the texts handled here are ASCII.  \<open>str_of_int\<close>
  is \<open>str\<close> on an integer (also what \<open>astype(str)\<close> gives for an integer column).
\<close>

definition digit_char :: "nat \<Rightarrow> char" where
  "digit_char n = char_of (48 + n)"

fun str_of_nat :: "nat \<Rightarrow> string" where
  "str_of_nat n =
     (if n < 10 then [digit_char n] else str_of_nat (n div 10) @ [digit_char (n mod 10)])"

declare str_of_nat.simps [simp del]

definition str_of_int :: "int \<Rightarrow> string" where
  "str_of_int i = (if i < 0 then CHR ''-'' # str_of_nat (nat (- i)) else str_of_nat (nat i))"

definition is_space :: "char \<Rightarrow> bool" where
  "is_space c =
     (c \<in> set [CHR 0x09, CHR 0x0A, CHR 0x0B, CHR 0x0C, CHR 0x0D,
               CHR 0x1C, CHR 0x1D, CHR 0x1E, CHR 0x1F, CHR 0x20])"

text \<open>\<open>str.split()\<close> without argument: the maximal runs of non-space characters.\<close>

fun split_aux :: "string \<Rightarrow> string \<Rightarrow> string list" where
  "split_aux cur [] = (if cur = [] then [] else [rev cur])"
| "split_aux cur (c # cs) =
     (if is_space c then (if cur = [] then split_aux [] cs else rev cur # split_aux [] cs)
      else split_aux (c # cur) cs)"

definition py_split :: "string \<Rightarrow> string list" where
  "py_split s = split_aux [] s"

definition strip :: "string \<Rightarrow> string" where
  "strip s = rev (dropWhile is_space (rev (dropWhile is_space s)))"

text \<open>\<open>s.replace(old, "")\<close>: every occurrence of \<open>old\<close>, scanning from the left.\<close>

function remove_all :: "string \<Rightarrow> string \<Rightarrow> string" where
  "remove_all old [] = []"
| "remove_all old (c # cs) =
     (if old \<noteq> [] \<and> take (length old) (c # cs) = old
      then remove_all old (drop (length old) (c # cs))
      else c # remove_all old cs)"
  by pat_completeness auto
termination
  by (relation "measure (\<lambda>(old, s). length s)") auto

declare remove_all.simps(2) [simp del]

text \<open>
  \<open>int(s)\<close> on a string: surrounding white space is dropped, a sign may come first, then
  decimal digits, where single underscores may stand between digits.  Anything else
  raises \<open>ValueError\<close> (\<open>None\<close>).  Digits outside ASCII are not modelled.
\<close>

definition is_digit :: "char \<Rightarrow> bool" where
  "is_digit c = (CHR ''0'' \<le> c \<and> c \<le> CHR ''9'')"

fun digits_ok :: "string \<Rightarrow> bool" where
  "digits_ok [] = False"
| "digits_ok [c] = is_digit c"
| "digits_ok (c # d # cs) =
     (is_digit c \<and> (if d = CHR ''_'' then cs \<noteq> [] \<and> digits_ok cs else digits_ok (d # cs)))"

definition digits_value :: "string \<Rightarrow> nat" where
  "digits_value ds =
     foldl (\<lambda>a c. 10 * a + (of_char c - 48)) 0 (filter (\<lambda>c. c \<noteq> CHR ''_'') ds)"

definition py_int :: "string \<Rightarrow> int option" where
  "py_int s =
     (let t = strip s;
          neg = (t \<noteq> [] \<and> hd t = CHR ''-'');
          ds = (if t \<noteq> [] \<and> (hd t = CHR ''-'' \<or> hd t = CHR ''+'') then tl t else t)
      in if digits_ok ds
         then Some (if neg then - int (digits_value ds) else int (digits_value ds))
         else None)"

text \<open>\<open>str.upper()\<close> on ASCII letters.\<close>

definition upper_char :: "char \<Rightarrow> char" where
  "upper_char c = (if CHR ''a'' \<le> c \<and> c \<le> CHR ''z'' then char_of (of_char c - (32::nat)) else c)"

definition upper :: "string \<Rightarrow> string" where
  "upper s = map upper_char s"

section \<open>Risk router (app/routers/risk.py)\<close>

text \<open>
  The application state holds the uploaded frame and the distributor-quarter table once
  an upload has succeeded; before that the attribute is absent and the helper answers
  with status 400.
\<close>

definition get_attr :: "'a option \<Rightarrow> error + 'a" where
  "get_attr a = (case a of None \<Rightarrow> Inl (HTTPException 400) | Some v \<Rightarrow> Inr v)"

record trend_point =
  tp_quarter :: string
  tp_waste :: fval
  tp_pct_change :: "fval option"
  tp_status :: string

record trend_response =
  tr_distributor_id :: string
  trend :: "trend_point list"

definition trend_point_of :: "dq_row \<Rightarrow> trend_point" where
  "trend_point_of row =
     \<lparr> tp_quarter = str_of_int (dq_year row) @ '' '' @ dq_quarter row,
       tp_waste = fround 2 (total_waste row),
       tp_pct_change =
         (if isna (pct_change_Wastes_from_last_quarter row) then None
          else Some (fround 2 (pct_change_Wastes_from_last_quarter row))),
       tp_status = Status row \<rparr>"

definition distributor_trend :: "dq_row list option \<Rightarrow> string \<Rightarrow> error + trend_response" where
  "distributor_trend state_dq distributor_id =
     (case get_attr state_dq of
        Inl e \<Rightarrow> Inl e
      | Inr dq \<Rightarrow>
          (let df = filter (\<lambda>r. str_of_int (dq_distributor r) = distributor_id) dq
           in if df = [] then Inl (HTTPException 404)
              else Inr \<lparr> tr_distributor_id = distributor_id,
                         trend = map trend_point_of
                                   (sort_key (\<lambda>r. (dq_year r, dq_quarter r)) df) \<rparr>))"

record comparison_entry =
  ce_distributor_id :: int
  total_waste_q1 :: fval
  total_waste_q2 :: fval
  delta :: fval
  ce_trend :: arrow
  status_change :: string

record comparison_response =
  resp_state :: "string option"
  resp_quarter_a :: "string option"
  resp_quarter_b :: "string option"
  comparison :: "comparison_entry list"

text \<open>The separator of a status change: a space, a right arrow (U+2192 in UTF-8), a space.\<close>

definition arrow_sep :: string where
  "arrow_sep = [CHR 0x20, CHR 0xE2, CHR 0x86, CHR 0x92, CHR 0x20]"

definition parse_quarter :: "string \<Rightarrow> error + (int \<times> string)" where
  "parse_quarter q_label =
     (case py_split q_label of
        [y, q] \<Rightarrow> (case py_int y of
                      None \<Rightarrow> Inl ValueError
                    | Some yi \<Rightarrow> Inr (yi, remove_all y q))
      | _ \<Rightarrow> Inl ValueError)"

text \<open>
  \<open>merge(how="outer", on="Distributor ID")\<close>: the keys of both sides in ascending
  order; a key of one side only is paired with a missing row, a key of both sides with
  every combination of its rows.
\<close>

definition outer_merge ::
  "dq_row list \<Rightarrow> dq_row list \<Rightarrow> (int \<times> dq_row option \<times> dq_row option) list" where
  "outer_merge l r =
     concat (map (\<lambda>k.
        let ls = filter (\<lambda>a. dq_distributor a = k) l;
            rs = filter (\<lambda>b. dq_distributor b = k) r
        in if rs = [] then map (\<lambda>a. (k, Some a, None)) ls
           else if ls = [] then map (\<lambda>b. (k, None, Some b)) rs
           else concat (map (\<lambda>a. map (\<lambda>b. (k, Some a, Some b)) rs) ls))
       (sort (remdups (map dq_distributor l @ map dq_distributor r))))"

definition fillna :: "fval \<Rightarrow> fval \<Rightarrow> fval" where
  "fillna v d = (if isna v then d else v)"

definition side_waste :: "dq_row option \<Rightarrow> fval" where
  "side_waste s = (case s of None \<Rightarrow> NaN | Some r \<Rightarrow> total_waste r)"

definition side_status :: "dq_row option \<Rightarrow> string" where
  "side_status s = (case s of None \<Rightarrow> ''Unknown'' | Some r \<Rightarrow> Status r)"

definition merged_entry :: "int \<times> dq_row option \<times> dq_row option \<Rightarrow> comparison_entry" where
  "merged_entry m =
     (case m of (k, a, b) \<Rightarrow>
        let d = fsub (fillna (side_waste b) (Fin 0)) (fillna (side_waste a) (Fin 0))
        in \<lparr> ce_distributor_id = k,
             total_waste_q1 = (if \<not> isna (side_waste a) then fround 2 (side_waste a) else Fin 0),
             total_waste_q2 = (if \<not> isna (side_waste b) then fround 2 (side_waste b) else Fin 0),
             delta = fround 2 d,
             ce_trend = waste_trend_arrow d,
             status_change = side_status a @ arrow_sep @ side_status b \<rparr>)"

definition same_quarter_entry :: "dq_row \<Rightarrow> comparison_entry" where
  "same_quarter_entry base =
     \<lparr> ce_distributor_id = dq_distributor base,
       total_waste_q1 = fround 2 (total_waste base),
       total_waste_q2 = fround 2 (total_waste base),
       delta = Fin 0,
       ce_trend = ArrowFlat,
       status_change = Status base @ arrow_sep @ Status base \<rparr>"

definition empty_comparison :: comparison_response where
  "empty_comparison =
     \<lparr> resp_state = None, resp_quarter_a = None, resp_quarter_b = None, comparison = [] \<rparr>"

definition selected_distributors :: "string \<Rightarrow> string option \<Rightarrow> string list" where
  "selected_distributors distributor_1 distributor_2 =
     distributor_1 #
       (case distributor_2 of None \<Rightarrow> [] | Some d \<Rightarrow> if d = [] then [] else [d])"

text \<open>The rows of one quarter, restricted to the selected distributors.\<close>

definition quarter_rows :: "dq_row list \<Rightarrow> int \<Rightarrow> string \<Rightarrow> string list \<Rightarrow> dq_row list" where
  "quarter_rows dq y q distributors =
     filter (\<lambda>r. str_of_int (dq_distributor r) \<in> set distributors)
       (filter (\<lambda>r. dq_year r = y \<and> dq_quarter r = q) dq)"

definition full_comparison ::
  "string \<Rightarrow> string \<Rightarrow> string \<Rightarrow> comparison_entry list \<Rightarrow> comparison_response" where
  "full_comparison state quarter_a quarter_b entries =
     \<lparr> resp_state = Some state, resp_quarter_a = Some quarter_a,
       resp_quarter_b = Some quarter_b, comparison = entries \<rparr>"

definition quarter_comparison ::
  "dq_row list option \<Rightarrow> string \<Rightarrow> string \<Rightarrow> string \<Rightarrow> string \<Rightarrow> string option
     \<Rightarrow> error + comparison_response" where
  "quarter_comparison state_dq state quarter_a quarter_b distributor_1 distributor_2 =
     (case get_attr state_dq of
        Inl e \<Rightarrow> Inl e
      | Inr dq0 \<Rightarrow>
     (let dq = filter (\<lambda>r. dq_state r = state) dq0
      in if dq = [] then Inl (HTTPException 404)
         else
     (case parse_quarter quarter_a of
        Inl e \<Rightarrow> Inl e
      | Inr (y1, q1) \<Rightarrow>
     (case parse_quarter quarter_b of
        Inl e \<Rightarrow> Inl e
      | Inr (y2, q2) \<Rightarrow>
     (let distributors = selected_distributors distributor_1 distributor_2;
          df_q1 = quarter_rows dq y1 q1 distributors;
          df_q2 = quarter_rows dq y2 q2 distributors
      in if quarter_a = quarter_b then
           (case df_q1 of
              [] \<Rightarrow> Inr empty_comparison
            | base # _ \<Rightarrow>
                Inr (full_comparison state quarter_a quarter_b [same_quarter_entry base]))
         else
           (let merged = outer_merge df_q1 df_q2
            in if merged = [] then Inr empty_comparison
               else Inr (full_comparison state quarter_a quarter_b
                           (map merged_entry merged))))))))"

section \<open>Alerts router (app/routers/alerts.py)\<close>

datatype severity = HIGH | MEDIUM | LOW

fun severity_name :: "severity \<Rightarrow> string" where
  "severity_name HIGH = ''HIGH''"
| "severity_name MEDIUM = ''MEDIUM''"
| "severity_name LOW = ''LOW''"

text \<open>
  The description of an alert is a fixed text around one number printed with one
  decimal; the number is kept, the printing is not modelled.
\<close>

datatype description = Waste_exceeded_by fval | Returns_at fval | Waste_within_limits

record alert =
  severity :: severity
  title :: string
  description :: description
  distributor_id :: int
  alert_state :: string
  category :: string
  time_ref :: string

record alert_summary =
  high :: nat
  medium :: nat
  low :: nat

record alerts_response =
  summary :: alert_summary
  alerts :: "alert list"

definition dropna_keys :: "raw_row list \<Rightarrow> raw_row list" where
  "dropna_keys rows = filter (\<lambda>r. Distributor_ID r \<noteq> None \<and> US_States r \<noteq> None) rows"

definition pair_key :: "raw_row \<Rightarrow> (int \<times> string) option" where
  "pair_key r =
     (case (Distributor_ID r, US_States r) of
        (Some d, Some s) \<Rightarrow> Some (d, s)
      | _ \<Rightarrow> None)"

text \<open>
  \<open>groupby(["Distributor ID", "US States"]).agg(a = (col1, "sum"), b = (col2, "sum"))\<close>:
  one row per key, in key order, with the two NaN-skipping sums.
\<close>

definition group_sums ::
  "(raw_row \<Rightarrow> fval) \<Rightarrow> (raw_row \<Rightarrow> fval) \<Rightarrow> raw_row list
     \<Rightarrow> (int \<times> string \<times> fval \<times> fval) list" where
  "group_sums col1 col2 rows =
     map (\<lambda>k. let g = filter (\<lambda>r. pair_key r = Some k) rows
              in (fst k, snd k, nansum (map col1 g), nansum (map col2 g)))
       (sort (remdups (List.map_filter pair_key rows)))"

text \<open>The rows with a positive denominator, each with its ratio as a fifth column.\<close>

definition with_ratio ::
  "(int \<times> string \<times> fval \<times> fval) list \<Rightarrow> (int \<times> string \<times> fval \<times> fval \<times> fval) list" where
  "with_ratio tbl =
     map (\<lambda>(d, s, num, den). (d, s, num, den, fdiv num den))
       (filter (\<lambda>(d, s, num, den). fgt den (Fin 0)) tbl)"

definition high_alert :: "int \<times> string \<times> fval \<times> fval \<times> fval \<Rightarrow> alert" where
  "high_alert r =
     (case r of (d, s, w, a, usage_pct) \<Rightarrow>
        \<lparr> severity = HIGH, title = ''Waste Threshold Exceeded'',
          description = Waste_exceeded_by (fmul (fsub usage_pct (Fin 1)) (Fin 100)),
          distributor_id = d, alert_state = s,
          category = ''Stale Inventory'', time_ref = ''Recent'' \<rparr>)"

definition medium_alert :: "int \<times> string \<times> fval \<times> fval \<times> fval \<Rightarrow> alert" where
  "medium_alert r =
     (case r of (d, s, rt, dl, return_pct) \<Rightarrow>
        \<lparr> severity = MEDIUM, title = ''High Return Rate'',
          description = Returns_at (fmul return_pct (Fin 100)),
          distributor_id = d, alert_state = s,
          category = ''Returns'', time_ref = ''Recent'' \<rparr>)"

definition low_alert :: "int \<times> string \<times> fval \<times> fval \<times> fval \<Rightarrow> alert" where
  "low_alert r =
     (case r of (d, s, w, a, usage_pct) \<Rightarrow>
        \<lparr> severity = LOW, title = ''Good Inventory Control'',
          description = Waste_within_limits,
          distributor_id = d, alert_state = s,
          category = ''Positive Signal'', time_ref = ''Recent'' \<rparr>)"

definition generate_alerts :: "raw_row list \<Rightarrow> alert list" where
  "generate_alerts rows =
     (let df = dropna_keys rows;
          over_allow = with_ratio (group_sums Waste_Quantity_Sum Waste_Allowance_Quantity df);
          returns = with_ratio (group_sums Returns_Quantity Deliveries_Quantity df)
      in map high_alert (filter (\<lambda>(d, s, w, a, u). fgt u (Fin 1)) over_allow)
         @ map medium_alert (filter (\<lambda>(d, s, r, l, u). fgt u (Fin (8 / 100))) returns)
         @ map low_alert (filter (\<lambda>(d, s, w, a, u). flt u (Fin (6 / 10))) over_allow))"

definition nunique :: "severity \<Rightarrow> alert list \<Rightarrow> nat" where
  "nunique s als = length (remdups (map distributor_id (filter (\<lambda>a. severity a = s) als)))"

definition summarize :: "alert list \<Rightarrow> alert_summary" where
  "summarize als = \<lparr> high = nunique HIGH als, medium = nunique MEDIUM als, low = nunique LOW als \<rparr>"

fun priority :: "severity \<Rightarrow> int" where
  "priority HIGH = 3"
| "priority MEDIUM = 2"
| "priority LOW = 1"

text \<open>
  \<open>sort_values("priority", ascending=False)\<close>, here as a stable sort; pandas' default
  algorithm may order alerts of equal priority differently.
\<close>

definition sort_priority_desc :: "alert list \<Rightarrow> alert list" where
  "sort_priority_desc als = sort_key (\<lambda>a. - priority (severity a)) als"

text \<open>\<open>drop_duplicates(subset=["distributor_id"])\<close> keeps the first row of each distributor.\<close>

fun drop_duplicates :: "int list \<Rightarrow> alert list \<Rightarrow> alert list" where
  "drop_duplicates seen [] = []"
| "drop_duplicates seen (a # als) =
     (if distributor_id a \<in> set seen then drop_duplicates seen als
      else a # drop_duplicates (distributor_id a # seen) als)"

definition dedup_alerts :: "alert list \<Rightarrow> alert list" where
  "dedup_alerts als = drop_duplicates [] (sort_priority_desc als)"

text \<open>
  An empty alert list makes a frame without columns, and grouping it by severity raises
  \<open>KeyError\<close>.  A distributor filter that is not a number raises \<open>ValueError\<close>.
\<close>

definition get_alerts ::
  "raw_row list option \<Rightarrow> string \<Rightarrow> string \<Rightarrow> string \<Rightarrow> error + alerts_response" where
  "get_alerts state_df severity_arg distributor state =
     (let sev = upper severity_arg
      in case get_attr state_df of
           Inl e \<Rightarrow> Inl e
         | Inr df \<Rightarrow>
        (let als = generate_alerts df
         in if als = [] then Inl KeyError
            else
        (let s = summarize als;
             d1 = dedup_alerts als;
             d2 = (if sev \<noteq> ''ALL'' then filter (\<lambda>a. severity_name (severity a) = sev) d1 else d1)
         in if distributor \<noteq> ''ALL'' then
              (case py_int distributor of
                 None \<Rightarrow> Inl ValueError
               | Some n \<Rightarrow>
                   (let d3 = filter (\<lambda>a. distributor_id a = n) d2;
                        d4 = (if state \<noteq> ''ALL'' then filter (\<lambda>a. alert_state a = state) d3 else d3)
                    in Inr \<lparr> summary = s, alerts = d4 \<rparr>))
            else
              (let d4 = (if state \<noteq> ''ALL'' then filter (\<lambda>a. alert_state a = state) d2 else d2)
               in Inr \<lparr> summary = s, alerts = d4 \<rparr>))))"

section \<open>Correlation router (app/routers/correlation.py)\<close>

datatype dtype = Int64 | Float64 | Object

record column =
  col_name :: string
  col_dtype :: dtype
  col_values :: "fval list"

text \<open>
  \<open>DataFrame.corr()\<close> (Pearson).  For a pair of columns pandas keeps the rows where both
  cells are finite and runs Welford's recurrences over them; with no such row, or with a
  zero divisor, the entry is NaN.  It computes the entries on and below the diagonal and
  stores each one at both positions.
\<close>

record welford =
  nobs :: nat
  meanx :: real
  meany :: real
  ssqdm_x :: real
  ssqdm_y :: real
  covxy :: real

definition welford_init :: welford where
  "welford_init = \<lparr> nobs = 0, meanx = 0, meany = 0, ssqdm_x = 0, ssqdm_y = 0, covxy = 0 \<rparr>"

definition welford_step :: "welford \<Rightarrow> real \<times> real \<Rightarrow> welford" where
  "welford_step w v =
     (case v of (vx, vy) \<Rightarrow>
        let n = nobs w + 1;
            dx = vx - meanx w;
            dy = vy - meany w;
            mx = meanx w + 1 / real n * dx;
            my = meany w + 1 / real n * dy
        in \<lparr> nobs = n, meanx = mx, meany = my,
             ssqdm_x = ssqdm_x w + (vx - mx) * dx,
             ssqdm_y = ssqdm_y w + (vy - my) * dy,
             covxy = covxy w + (vx - mx) * dy \<rparr>)"

fun finite_pairs :: "fval list \<Rightarrow> fval list \<Rightarrow> (real \<times> real) list" where
  "finite_pairs (Fin x # xs) (Fin y # ys) = (x, y) # finite_pairs xs ys"
| "finite_pairs (_ # xs) (_ # ys) = finite_pairs xs ys"
| "finite_pairs _ _ = []"

definition nancorr_pair :: "fval list \<Rightarrow> fval list \<Rightarrow> fval" where
  "nancorr_pair xs ys =
     (let w = foldl welford_step welford_init (finite_pairs xs ys)
      in if nobs w < 1 then NaN
         else (let divisor = sqrt (ssqdm_x w * ssqdm_y w)
               in if divisor \<noteq> 0 then Fin (covxy w / divisor) else NaN))"

definition nancorr :: "fval list list \<Rightarrow> fval list list" where
  "nancorr cols =
     map (\<lambda>i. map (\<lambda>j. nancorr_pair (cols ! max i j) (cols ! min i j)) [0..<length cols])
       [0..<length cols]"

record corr_frame =
  features :: "string list"
  matrix :: "fval list list"

definition corr_round2 :: "column list \<Rightarrow> corr_frame" where
  "corr_round2 numeric_df =
     \<lparr> features = map col_name numeric_df,
       matrix = map (map (fround 2)) (nancorr (map col_values numeric_df)) \<rparr>"

record relationship =
  f1 :: string
  f2 :: string
  rel_value :: fval
  rel_abs :: fval

text \<open>
  The two nested loops over the feature names.  The names of a frame read from a file
  are distinct, and then \<open>corr.loc[i, j]\<close> is the matrix entry at the positions of the
  two names.
\<close>

definition relationships :: "corr_frame \<Rightarrow> relationship list" where
  "relationships corr =
     concat (map (\<lambda>(a, i).
        concat (map (\<lambda>(b, j).
           if i \<noteq> j
           then [\<lparr> f1 = i, f2 = j, rel_value = matrix corr ! a ! b,
                    rel_abs = fabs (matrix corr ! a ! b) \<rparr>]
           else [])
          (enumerate 0 (features corr))))
       (enumerate 0 (features corr)))"

record key_relationships =
  strong :: "relationship list"
  moderate :: "relationship list"
  inverse :: "relationship list"

definition bucket_relationships :: "relationship list \<Rightarrow> key_relationships" where
  "bucket_relationships rel_df =
     \<lparr> strong = take 5 (filter (\<lambda>r. fge (rel_abs r) (Fin (75 / 100))) rel_df),
       moderate = take 5 (filter (\<lambda>r. fge (rel_abs r) (Fin (4 / 10))
                                        \<and> flt (rel_abs r) (Fin (75 / 100))) rel_df),
       inverse = take 5 (filter (\<lambda>r. fle (rel_value r) (Fin (- (4 / 10)))) rel_df) \<rparr>"

record correlation_response =
  heatmap :: corr_frame
  key_rel :: key_relationships

text \<open>
  The third part of the reply, the model recommendations, is a constant text and is
  left out.  An empty relationship list makes a frame without a \<open>value\<close> column, and
  reading that column raises \<open>KeyError\<close>.
\<close>

text \<open>\<open>select_dtypes(include=["int64", "float64"])\<close>.\<close>

definition select_dtypes :: "column list \<Rightarrow> column list" where
  "select_dtypes df = filter (\<lambda>c. col_dtype c = Int64 \<or> col_dtype c = Float64) df"

definition correlation_analysis :: "column list option \<Rightarrow> error + correlation_response" where
  "correlation_analysis state_df =
     (case get_attr state_df of
        Inl e \<Rightarrow> Inl e
      | Inr df \<Rightarrow>
          (let numeric_df = select_dtypes df
           in if length numeric_df < 2 then Inl (HTTPException 400)
              else (let corr = corr_round2 numeric_df;
                        rels = relationships corr
                    in if rels = [] then Inl KeyError
                       else Inr \<lparr> heatmap = corr,
                                  key_rel = bucket_relationships rels \<rparr>)))"

section \<open>Notions used in the statements\<close>

text \<open>A raw row with all four key cells present.\<close>

definition raw ::
  "int \<Rightarrow> string \<Rightarrow> int \<Rightarrow> string \<Rightarrow> fval \<Rightarrow> fval \<Rightarrow> fval \<Rightarrow> fval \<Rightarrow> raw_row" where
  "raw d s y q deliv ret allow wst =
     \<lparr> Distributor_ID = Some d, US_States = Some s, year_only = Some y, quarter = Some q,
       Deliveries_Quantity = deliv, Returns_Quantity = ret,
       Waste_Allowance_Quantity = allow, Waste_Quantity_Sum = wst \<rparr>"

text \<open>The limit percentage of one row, from its allowance and its waste.\<close>

definition limit_pct :: "fval \<Rightarrow> fval \<Rightarrow> fval" where
  "limit_pct limit spoil =
     fround 2 (if feq limit (Fin 0) \<or> feq spoil (Fin 0) then Fin 0
               else fmul (fdiv (fsub spoil limit) limit) (Fin 100))"

text \<open>The quarter-over-quarter percentage of a waste total and the one before it.\<close>

definition change_pct :: "fval \<Rightarrow> fval \<Rightarrow> fval" where
  "change_pct w prior = fround 2 (fmul (fsub (fdiv w prior) (Fin 1)) (Fin 100))"

definition is_inf :: "fval \<Rightarrow> bool" where
  "is_inf v = (v = PInf \<or> v = MInf)"


text \<open>The count that a summary holds for a severity.\<close>

fun summary_count :: "alert_summary \<Rightarrow> severity \<Rightarrow> nat" where
  "summary_count s HIGH = high s"
| "summary_count s MEDIUM = medium s"
| "summary_count s LOW = low s"

section \<open>Example inputs\<close>

text \<open>
  Distributors 101 and 102, both in Texas with one row in 2022 Q1; and distributor 7 in
  Texas with waste 800 in 2022 Q1 and 1000 in 2022 Q2, listed out of order.
\<close>

definition two_distributors :: "raw_row list" where
  "two_distributors =
     [raw 101 ''TX'' 2022 ''Q1'' (Fin 10) (Fin 1) (Fin 800) (Fin 1000),
      raw 102 ''TX'' 2022 ''Q1'' (Fin 10) (Fin 1) (Fin 500) (Fin 600)]"

definition two_quarters :: "raw_row list" where
  "two_quarters =
     [raw 7 ''TX'' 2022 ''Q2'' (Fin 10) (Fin 1) (Fin 800) (Fin 1000),
      raw 7 ''TX'' 2022 ''Q1'' (Fin 10) (Fin 1) (Fin 800) (Fin 800)]"

text \<open>
  Distributor 5 with waste 1000 over allowance 400 and returns 90 over deliveries 1000
  (a HIGH and a MEDIUM alert), and distributor 6 with waste 10 over allowance 100 (LOW).
\<close>

definition alert_rows :: "raw_row list" where
  "alert_rows =
     [raw 5 ''TX'' 2022 ''Q1'' (Fin 1000) (Fin 90) (Fin 400) (Fin 1000),
      raw 6 ''CA'' 2022 ''Q1'' (Fin 1000) (Fin 10) (Fin 100) (Fin 10)]"

text \<open>
  Distributor 5 over its allowance in two states (two HIGH alerts for one distributor)
  and with high returns in Texas, and distributor 6 well within its allowance.
\<close>

definition two_state_rows :: "raw_row list" where
  "two_state_rows =
     [raw 5 ''TX'' 2022 ''Q1'' (Fin 1000) (Fin 90) (Fin 400) (Fin 1000),
      raw 5 ''CA'' 2022 ''Q1'' (Fin 1000) (Fin 10) (Fin 100) (Fin 300),
      raw 6 ''CA'' 2022 ''Q1'' (Fin 1000) (Fin 10) (Fin 100) (Fin 10)]"

text \<open>An alert list that is not in priority order: LOW, then HIGH, for distributor 5.\<close>

definition unordered_alerts :: "alert list" where
  "unordered_alerts =
     [low_alert (5, ''TX'', Fin 10, Fin 100, Fin (1 / 10)),
      medium_alert (6, ''CA'', Fin 90, Fin 1000, Fin (9 / 100)),
      high_alert (5, ''CA'', Fin 300, Fin 100, Fin 3)]"

text \<open>
  Three columns that are rearrangements of 1, 2, 3, 4, 5, with the rounded correlation
  frame they give: 0.8 between A and B, 0.9 between A and C and between B and C.
\<close>

definition permuted_df :: "column list" where
  "permuted_df =
     [\<lparr> col_name = ''A'', col_dtype = Int64,
         col_values = [Fin 1, Fin 2, Fin 3, Fin 4, Fin 5] \<rparr>,
      \<lparr> col_name = ''B'', col_dtype = Int64,
         col_values = [Fin 2, Fin 1, Fin 4, Fin 3, Fin 5] \<rparr>,
      \<lparr> col_name = ''label'', col_dtype = Object,
         col_values = [NaN, NaN, NaN, NaN, NaN] \<rparr>,
      \<lparr> col_name = ''C'', col_dtype = Float64,
         col_values = [Fin 2, Fin 1, Fin 3, Fin 4, Fin 5] \<rparr>]"

definition permuted_corr :: corr_frame where
  "permuted_corr =
     \<lparr> features = [''A'', ''B'', ''C''],
       matrix = [[Fin 1, Fin (8 / 10), Fin (9 / 10)],
                 [Fin (8 / 10), Fin 1, Fin (9 / 10)],
                 [Fin (9 / 10), Fin (9 / 10), Fin 1]] \<rparr>"

definition rel :: "string \<Rightarrow> string \<Rightarrow> real \<Rightarrow> relationship" where
  "rel a b v = \<lparr> f1 = a, f2 = b, rel_value = Fin v, rel_abs = Fin \<bar>v\<bar> \<rparr>"


text \<open>A frame with two varying columns.\<close>

definition varying_df :: "column list" where
  "varying_df =
     [\<lparr> col_name = ''A'', col_dtype = Float64, col_values = [Fin 0, Fin 2] \<rparr>,
      \<lparr> col_name = ''B'', col_dtype = Float64, col_values = [Fin 2, Fin 0] \<rparr>]"

section \<open>Overflow\<close>

lemma max_float_ge: "2 ^ 52 \<le> max_float"
proof -
  have "(1::real) \<le> 2 ^ 971" by (rule one_le_power) simp
  then have "(2 ^ 53 - 1) * (1::real) \<le> (2 ^ 53 - 1) * 2 ^ 971"
    by (rule mult_left_mono) simp
  then show ?thesis by (simp add: max_float_def)
qed

lemma fin_small: "\<bar>x\<bar> \<le> 2 ^ 52 \<Longrightarrow> fin x = Fin x"
  using max_float_ge by (auto simp: fin_def)

text \<open>The same function with the common case first, for evaluation.\<close>

lemma fin_code [code]:
  "fin x =
     (if \<bar>x\<bar> \<le> 2 ^ 52 then Fin x
      else if x > max_float then PInf else if x < - max_float then MInf else Fin x)"
  by (simp add: fin_small) (simp add: fin_def)

lemma fin_not_nan: "\<not> isna (fin x)"
  by (simp add: fin_def)

lemma fround_zero: "fround k (Fin 0) = Fin 0"
  by (simp add: fin_small rint_def)

lemma fround_not_nan: "\<not> isna v \<Longrightarrow> \<not> isna (fround k v)"
  by (cases v) (simp_all add: fin_def)

section \<open>The classifier is total and two-tier\<close>

text \<open>
  Claim C2.  Whatever the trend value is, a limit value that is not NaN decides the
  status alone: High Risk from 120 up, Risk from 100 up to 120, Very Good below 80 and
  Good for the rest.  The trend value is read only when the limit value is NaN
  (above 10 High Risk, above 0 Risk, below -10 Very Good, otherwise Good), the answer is
  Not Classified exactly when both are NaN, and the answer is always one of the five
  status strings.
\<close>

theorem distributor_status_two_tier:
  "distributor_status p c \<in> set statuses
   \<and> (\<not> isna p \<and> fge p (Fin 120) \<longrightarrow> distributor_status p c = ''High Risk'')
   \<and> (\<not> isna p \<and> fge p (Fin 100) \<and> flt p (Fin 120)
        \<longrightarrow> distributor_status p c = ''Risk'')
   \<and> (\<not> isna p \<and> flt p (Fin 80) \<longrightarrow> distributor_status p c = ''Very Good'')
   \<and> (\<not> isna p \<and> \<not> fge p (Fin 100) \<and> \<not> flt p (Fin 80)
        \<longrightarrow> distributor_status p c = ''Good'')
   \<and> (isna p \<and> \<not> isna c \<and> fgt c (Fin 10) \<longrightarrow> distributor_status p c = ''High Risk'')
   \<and> (isna p \<and> \<not> isna c \<and> fgt c (Fin 0) \<and> \<not> fgt c (Fin 10)
        \<longrightarrow> distributor_status p c = ''Risk'')
   \<and> (isna p \<and> \<not> isna c \<and> flt c (Fin (- 10))
        \<longrightarrow> distributor_status p c = ''Very Good'')
   \<and> (isna p \<and> \<not> isna c \<and> \<not> fgt c (Fin 0) \<and> \<not> flt c (Fin (- 10))
        \<longrightarrow> distributor_status p c = ''Good'')
   \<and> (distributor_status p c = ''Not Classified'' \<longleftrightarrow> isna p \<and> isna c)"
proof (cases p)
  case (Fin a)
  then show ?thesis
    by (auto simp: distributor_status_def statuses_def fge_def fle_def fgt_def)
next
  case PInf
  then show ?thesis
    by (simp add: distributor_status_def statuses_def fge_def fle_def fgt_def)
next
  case MInf
  then show ?thesis
    by (simp add: distributor_status_def statuses_def fge_def fle_def fgt_def)
next
  case NaN
  then show ?thesis
    by (cases c) (auto simp: distributor_status_def statuses_def fge_def fle_def fgt_def)
qed

theorem distributor_status_two_tier_witness:
  "distributor_status (Fin 125) (Fin (- 50)) = ''High Risk''
   \<and> distributor_status (Fin 100) (Fin (- 50)) = ''Risk''
   \<and> distributor_status (Fin 25) (Fin 50) = ''Very Good''
   \<and> distributor_status (Fin 80) (Fin 50) = ''Good''
   \<and> distributor_status NaN (Fin 11) = ''High Risk''
   \<and> distributor_status NaN (Fin 10) = ''Risk''
   \<and> distributor_status NaN (Fin (- 11)) = ''Very Good''
   \<and> distributor_status NaN (Fin (- 10)) = ''Good''
   \<and> distributor_status NaN NaN = ''Not Classified''"
  using distributor_status_two_tier [of "Fin 125" "Fin (- 50)"]
    distributor_status_two_tier [of "Fin 100" "Fin (- 50)"]
    distributor_status_two_tier [of "Fin 25" "Fin 50"]
    distributor_status_two_tier [of "Fin 80" "Fin 50"]
    distributor_status_two_tier [of NaN "Fin 11"]
    distributor_status_two_tier [of NaN "Fin 10"]
    distributor_status_two_tier [of NaN "Fin (- 11)"]
    distributor_status_two_tier [of NaN "Fin (- 10)"]
    distributor_status_two_tier [of NaN NaN]
  by (simp add: fge_def fle_def fgt_def)


section \<open>Rows of the distributor-quarter table\<close>

lemma np_where_map:
  "np_where (map c xs) (replicate (length xs) z) (map f xs) = map (\<lambda>x. if c x then z else f x) xs"
  by (induction xs) (simp_all add: np_where_def)

lemma zip_map_self: "zip xs (map f xs) = map (\<lambda>x. (x, f x)) xs"
  by (induction xs) simp_all

lemma pct_from_limit_col_eq:
  "pct_from_limit_col tbl = map (\<lambda>r. limit_pct (total_waste_allowance r) (total_waste r)) tbl"
  unfolding pct_from_limit_col_def limit_zero_col_def limit_ratio_col_def np_where_map
  by (simp add: limit_pct_def)

lemma with_pct_from_limit_eq:
  "with_pct_from_limit tbl =
     map (\<lambda>r. agg_row.extend r
                (lim_row.fields (limit_pct (total_waste_allowance r) (total_waste r)))) tbl"
  unfolding with_pct_from_limit_def pct_from_limit_col_eq zip_map_self by (simp add: comp_def)

lemma lim_row_sel:
  "pct_from_limit (agg_row.extend r (lim_row.fields p)) = p"
  "total_waste (agg_row.extend r (lim_row.fields p)) = total_waste r"
  "total_waste_allowance (agg_row.extend r (lim_row.fields p)) = total_waste_allowance r"
  "dq_distributor (agg_row.extend r (lim_row.fields p)) = dq_distributor r"
  "dq_year (agg_row.extend r (lim_row.fields p)) = dq_year r"
  "dq_quarter (agg_row.extend r (lim_row.fields p)) = dq_quarter r"
  "dq_state (agg_row.extend r (lim_row.fields p)) = dq_state r"
  by (simp_all add: agg_row.defs lim_row.defs)

lemma dq_row_sel:
  "pct_from_limit (lim_row.extend l (dq_row.fields c s)) = pct_from_limit l"
  "total_waste (lim_row.extend l (dq_row.fields c s)) = total_waste l"
  "total_waste_allowance (lim_row.extend l (dq_row.fields c s)) = total_waste_allowance l"
  "dq_distributor (lim_row.extend l (dq_row.fields c s)) = dq_distributor l"
  "dq_year (lim_row.extend l (dq_row.fields c s)) = dq_year l"
  "dq_quarter (lim_row.extend l (dq_row.fields c s)) = dq_quarter l"
  "dq_state (lim_row.extend l (dq_row.fields c s)) = dq_state l"
  "pct_change_Wastes_from_last_quarter (lim_row.extend l (dq_row.fields c s)) = c"
  "Status (lim_row.extend l (dq_row.fields c s)) = s"
  by (simp_all add: agg_row.defs lim_row.defs dq_row.defs)

lemma lim_rows_pct:
  assumes "l \<in> set (sort_by_distributor_time (with_pct_from_limit tbl))"
  shows "pct_from_limit l = limit_pct (total_waste_allowance l) (total_waste l)"
    and "\<exists>a\<in>set tbl. total_waste_allowance l = total_waste_allowance a
                      \<and> total_waste l = total_waste a"
  using assms by (auto simp: sort_by_distributor_time_def with_pct_from_limit_eq lim_row_sel)

lemma with_status_set:
  assumes "r \<in> set (with_status tbl)"
  shows "\<exists>l\<in>set tbl. \<exists>c.
           r = lim_row.extend l (dq_row.fields c (distributor_status (pct_from_limit l) c))"
  using assms unfolding with_status_def by (auto dest!: set_zip_leftD)

lemma build_table_row:
  assumes "r \<in> set (build_table rows)"
  obtains l c where "l \<in> set (sort_by_distributor_time (with_pct_from_limit (groupby_agg rows)))"
    and "r = lim_row.extend l (dq_row.fields c (distributor_status (pct_from_limit l) c))"
  using assms unfolding build_table_def by (blast dest: with_status_set)

lemma build_df_Inr:
  "build_distributor_quarter_df columns rows = Inr tbl \<Longrightarrow> tbl = build_table rows"
  by (auto simp: build_distributor_quarter_df_def split: if_splits)

text \<open>
  Claim C1, amended.  In every row of the table that the build returns, the limit
  percentage is 0 when the allowance total or the waste total is 0, and otherwise
  ((waste - allowance) / allowance) * 100 rounded to 2 decimals.  The quotient itself is
  a full column computed for every row before the selection (see the counterexample
  below), so the selection, not a skipped division, keeps it out of the result.
\<close>

theorem pct_from_limit_selected:
  assumes "build_distributor_quarter_df columns rows = Inr tbl" and "r \<in> set tbl"
  shows "pct_from_limit r =
     (if feq (total_waste_allowance r) (Fin 0) \<or> feq (total_waste r) (Fin 0) then Fin 0
      else fround 2 (fmul (fdiv (fsub (total_waste r) (total_waste_allowance r))
                                (total_waste_allowance r)) (Fin 100)))"
proof -
  from assms have "r \<in> set (build_table rows)"
    by (auto dest: build_df_Inr)
  then obtain l c
    where l: "l \<in> set (sort_by_distributor_time (with_pct_from_limit (groupby_agg rows)))"
      and r: "r = lim_row.extend l (dq_row.fields c (distributor_status (pct_from_limit l) c))"
    by (rule build_table_row)
  from lim_rows_pct(1) [OF l] show ?thesis
    by (simp add: r dq_row_sel limit_pct_def fround_zero del: fround.simps)
qed

theorem pct_from_limit_selected_witness:
  "pct_from_limit (hd (build_table [raw 101 ''TX'' 2022 ''Q1'' (Fin 10) (Fin 1) (Fin 800) (Fin 1000)]))
     = Fin 25
   \<and> pct_from_limit (hd (build_table [raw 101 ''TX'' 2022 ''Q1'' (Fin 10) (Fin 1) (Fin 0) (Fin 1000)]))
     = Fin 0"
proof -
  let ?a = "[raw 101 ''TX'' 2022 ''Q1'' (Fin 10) (Fin 1) (Fin 800) (Fin 1000)]"
  let ?b = "[raw 101 ''TX'' 2022 ''Q1'' (Fin 10) (Fin 1) (Fin 0) (Fin 1000)]"
  have a1: "build_distributor_quarter_df required_cols ?a = Inr (build_table ?a)"
    by (simp add: build_distributor_quarter_df_def)
  have b1: "build_distributor_quarter_df required_cols ?b = Inr (build_table ?b)"
    by (simp add: build_distributor_quarter_df_def)
  have a2: "hd (build_table ?a) \<in> set (build_table ?a)" by code_simp
  have b2: "hd (build_table ?b) \<in> set (build_table ?b)" by code_simp
  have a3: "total_waste_allowance (hd (build_table ?a)) = Fin 800" by code_simp
  have a4: "total_waste (hd (build_table ?a)) = Fin 1000" by code_simp
  have b3: "total_waste_allowance (hd (build_table ?b)) = Fin 0" by code_simp
  have v: "fround 2 (fmul (fdiv (fsub (Fin 1000) (Fin 800)) (Fin 800)) (Fin 100)) = Fin 25"
    by code_simp
  from pct_from_limit_selected [OF a1 a2]
  have "pct_from_limit (hd (build_table ?a)) = Fin 25"
    unfolding a3 a4 v by simp
  moreover from pct_from_limit_selected [OF b1 b2]
  have "pct_from_limit (hd (build_table ?b)) = Fin 0"
    unfolding b3 by simp
  ultimately show ?thesis by simp
qed

text \<open>
  The claim as stated also says that no division happens for a zero allowance.  The
  ratio column handed to \<open>np.where\<close> holds the quotient of every row: for a row with
  allowance 0 and waste 5 it holds an infinity.
\<close>

theorem division_evaluated_counterexample:
  "map total_waste_allowance
     (groupby_agg [raw 101 ''TX'' 2022 ''Q1'' (Fin 10) (Fin 1) (Fin 0) (Fin 5)]) = [Fin 0]
   \<and> limit_ratio_col
       (groupby_agg [raw 101 ''TX'' 2022 ''Q1'' (Fin 10) (Fin 1) (Fin 0) (Fin 5)]) = [PInf]"
  by code_simp


section \<open>When the limit tier decides\<close>

lemma fsub_fin_not_nan: "\<not> isna v \<Longrightarrow> \<not> isna (fsub v (Fin x))"
  by (cases v) (simp_all add: fsub_def fin_not_nan)

lemma fdiv_fin_not_nan: "\<not> isna v \<Longrightarrow> x \<noteq> 0 \<Longrightarrow> \<not> isna (fdiv v (Fin x))"
  by (cases v) (simp_all add: fin_not_nan)

lemma fmul_100_not_nan: "\<not> isna v \<Longrightarrow> \<not> isna (fmul v (Fin 100))"
  by (cases v) (simp_all add: fin_not_nan inf_of_sign_def)

lemma fdiv_not_fin:
  assumes "\<forall>x. l \<noteq> Fin x"
  shows "isna (fmul (fdiv (fsub s l) l) (Fin 100))"
proof (cases l)
  case (Fin x)
  with assms show ?thesis by simp
next
  case PInf
  then show ?thesis by (cases s) (simp_all add: fsub_def)
next
  case MInf
  then show ?thesis by (cases s) (simp_all add: fsub_def)
next
  case NaN
  then show ?thesis by (cases s) (simp_all add: fsub_def)
qed

lemma fdiv_nan_waste: "isna (fmul (fdiv (fsub NaN l) l) (Fin 100))"
  by (cases l) (simp_all add: fsub_def)

text \<open>
  The limit percentage is NaN exactly when the selection takes the quotient (neither
  total equals 0) and the allowance total is not finite or the waste total is NaN.
\<close>

lemma limit_pct_nan_iff:
  "isna (limit_pct l s) \<longleftrightarrow>
     \<not> feq l (Fin 0) \<and> \<not> feq s (Fin 0) \<and> ((\<forall>x. l \<noteq> Fin x) \<or> isna s)"
proof (cases "feq l (Fin 0) \<or> feq s (Fin 0)")
  case True
  then show ?thesis
    by (auto simp: limit_pct_def fround_zero simp del: fround.simps)
next
  case False
  then have lp: "limit_pct l s = fround 2 (fmul (fdiv (fsub s l) l) (Fin 100))"
    by (simp add: limit_pct_def)
  show ?thesis
  proof (cases "(\<forall>x. l \<noteq> Fin x) \<or> isna s")
    case True
    then have "isna (fmul (fdiv (fsub s l) l) (Fin 100))"
    proof
      assume "\<forall>x. l \<noteq> Fin x"
      then show ?thesis by (simp add: fdiv_not_fin)
    next
      assume "isna s"
      then have "s = NaN" by (cases s) simp_all
      then show ?thesis by (simp add: fdiv_nan_waste)
    qed
    then have "fmul (fdiv (fsub s l) l) (Fin 100) = NaN"
      by (cases "fmul (fdiv (fsub s l) l) (Fin 100)") simp_all
    with True False show ?thesis by (simp add: lp)
  next
    case fin: False
    then obtain x where x: "l = Fin x" and s: "\<not> isna s" by blast
    with False have "x \<noteq> 0" by auto
    with s have A: "\<not> isna (fround 2 (fmul (fdiv (fsub s (Fin x)) (Fin x)) (Fin 100)))"
      by (intro fround_not_nan fmul_100_not_nan fdiv_fin_not_nan fsub_fin_not_nan)
    have B: "limit_pct l s = fround 2 (fmul (fdiv (fsub s (Fin x)) (Fin x)) (Fin 100))"
      using lp unfolding x .
    have "\<not> isna (limit_pct l s)"
      unfolding B by (rule A)
    with fin show ?thesis by simp
  qed
qed

lemma status_tier1:
  assumes "\<not> isna p"
  shows "distributor_status p c = distributor_status p c'"
    and "distributor_status p c \<noteq> ''Not Classified''"
  using assms by (simp_all add: distributor_status_def)

lemma status_not_classified_iff:
  "distributor_status p c = ''Not Classified'' \<longleftrightarrow> isna p \<and> isna c"
  by (simp add: distributor_status_def)

text \<open>
  Claim C10, amended.  A row of the built table has a NaN limit percentage exactly when
  neither of its totals equals 0 and its allowance total is an infinity or NaN or its
  waste total is NaN; its status is Not Classified exactly when both its limit
  percentage and its quarter-over-quarter change are NaN.  So for every row whose
  allowance total is finite and whose waste total is not NaN, the limit percentage is
  not NaN, the status is the one the limit tier gives whatever the trend value is, and
  it is not Not Classified.
\<close>

theorem tier1_decides_finite_allowance:
  assumes "build_distributor_quarter_df columns rows = Inr tbl" and "r \<in> set tbl"
  shows "(isna (pct_from_limit r) \<longleftrightarrow>
            \<not> feq (total_waste_allowance r) (Fin 0) \<and> \<not> feq (total_waste r) (Fin 0)
            \<and> ((\<forall>x. total_waste_allowance r \<noteq> Fin x) \<or> isna (total_waste r)))
    \<and> (Status r = ''Not Classified'' \<longleftrightarrow>
          isna (pct_from_limit r) \<and> isna (pct_change_Wastes_from_last_quarter r))
    \<and> ((\<exists>x. total_waste_allowance r = Fin x) \<and> \<not> isna (total_waste r) \<longrightarrow>
          \<not> isna (pct_from_limit r)
          \<and> (\<forall>c. Status r = distributor_status (pct_from_limit r) c)
          \<and> Status r \<noteq> ''Not Classified'')"
proof -
  from assms have "r \<in> set (build_table rows)"
    by (auto dest: build_df_Inr)
  then obtain l c
    where l: "l \<in> set (sort_by_distributor_time (with_pct_from_limit (groupby_agg rows)))"
      and r: "r = lim_row.extend l (dq_row.fields c (distributor_status (pct_from_limit l) c))"
    by (rule build_table_row)
  have p: "pct_from_limit r = limit_pct (total_waste_allowance r) (total_waste r)"
    using lim_rows_pct(1) [OF l] by (simp add: r dq_row_sel)
  have st: "Status r = distributor_status (pct_from_limit r)
                         (pct_change_Wastes_from_last_quarter r)"
    by (simp add: r dq_row_sel)
  have nan: "isna (pct_from_limit r) \<longleftrightarrow>
            \<not> feq (total_waste_allowance r) (Fin 0) \<and> \<not> feq (total_waste r) (Fin 0)
            \<and> ((\<forall>x. total_waste_allowance r \<noteq> Fin x) \<or> isna (total_waste r))"
    unfolding p by (rule limit_pct_nan_iff)
  have nc: "Status r = ''Not Classified'' \<longleftrightarrow>
          isna (pct_from_limit r) \<and> isna (pct_change_Wastes_from_last_quarter r)"
    unfolding st by (rule status_not_classified_iff)
  have dec: "\<not> isna (pct_from_limit r)
          \<and> (\<forall>c. Status r = distributor_status (pct_from_limit r) c)
          \<and> Status r \<noteq> ''Not Classified''"
    if "(\<exists>x. total_waste_allowance r = Fin x) \<and> \<not> isna (total_waste r)"
  proof -
    from that nan have n: "\<not> isna (pct_from_limit r)" by blast
    have "Status r = distributor_status (pct_from_limit r) c" for c
      unfolding st by (rule status_tier1(1) [OF n])
    moreover have "Status r \<noteq> ''Not Classified''"
      unfolding st by (rule status_tier1(2) [OF n])
    ultimately show ?thesis using n by blast
  qed
  from nan nc dec show ?thesis by blast
qed

theorem tier1_decides_finite_allowance_witness:
  "Status (hd (build_table [raw 101 ''TX'' 2022 ''Q1'' (Fin 10) NaN (Fin 800) (Fin 1000),
                            raw 101 ''TX'' 2022 ''Q1'' (Fin 10) (Fin 1) NaN (Fin 1000)]))
     = distributor_status (Fin 150) (Fin 7)
   \<and> \<not> isna (pct_from_limit
        (hd (build_table [raw 101 ''TX'' 2022 ''Q1'' (Fin 10) NaN (Fin 800) (Fin 1000),
                          raw 101 ''TX'' 2022 ''Q1'' (Fin 10) (Fin 1) NaN (Fin 1000)])))"
proof -
  let ?a = "[raw 101 ''TX'' 2022 ''Q1'' (Fin 10) NaN (Fin 800) (Fin 1000),
             raw 101 ''TX'' 2022 ''Q1'' (Fin 10) (Fin 1) NaN (Fin 1000)]"
  have a1: "build_distributor_quarter_df required_cols ?a = Inr (build_table ?a)"
    by (simp add: build_distributor_quarter_df_def)
  have a2: "hd (build_table ?a) \<in> set (build_table ?a)" by code_simp
  have a3: "total_waste_allowance (hd (build_table ?a)) = Fin 800" by code_simp
  have a4: "\<not> isna (total_waste (hd (build_table ?a)))" by code_simp
  have a5: "pct_from_limit (hd (build_table ?a)) = Fin 150" by code_simp
  from tier1_decides_finite_allowance [OF a1 a2] a3 a4
  have "\<not> isna (pct_from_limit (hd (build_table ?a)))"
    and "\<forall>c. Status (hd (build_table ?a))
               = distributor_status (pct_from_limit (hd (build_table ?a))) c"
    by blast+
  then show ?thesis by (simp add: a5)
qed

text \<open>
  The claim as stated fails.  A float column can hold an infinity (a cell \<open>inf\<close> of the
  uploaded file), and finite cells can sum to one (two cells of 10 to the 308): the
  allowance total is then infinite, the quotient is infinity over infinity, and the row,
  the first of its distributor, falls through both tiers.
\<close>

theorem tier1_infinite_allowance_counterexample:
  "map pct_from_limit
     (build_table [raw 101 ''TX'' 2022 ''Q1'' (Fin 10) (Fin 1) PInf (Fin 5)]) = [NaN]
   \<and> map Status
     (build_table [raw 101 ''TX'' 2022 ''Q1'' (Fin 10) (Fin 1) PInf (Fin 5)]) = [''Not Classified'']"
  by code_simp

lemma overflowing_sum:
  "nansum [Fin (10 ^ 308), NaN, Fin (10 ^ 308)] = PInf"
proof -
  have "max_float < 2 * 10 ^ 308"
    by (simp add: max_float_def)
  then show ?thesis
    by (simp add: nansum_def fin_def)
qed

section \<open>Decimal strings\<close>

lemma digit_value: "n < 10 \<Longrightarrow> of_char (digit_char n) - 48 = n"
  by (simp add: digit_char_def)

lemma str_of_nat_value:
  "foldl (\<lambda>a c. 10 * a + (of_char c - 48)) 0 (str_of_nat n) = n"
proof (induction n rule: str_of_nat.induct)
  case (1 n)
  show ?case
  proof (cases "n < 10")
    case True
    then show ?thesis
      by (subst str_of_nat.simps) (simp add: digit_value)
  next
    case False
    with 1 show ?thesis
      by (subst str_of_nat.simps) (simp add: digit_value)
  qed
qed

lemma str_of_nat_inj: "str_of_nat m = str_of_nat n \<Longrightarrow> m = n"
  by (metis str_of_nat_value)

lemma digit_char_not_minus: "n < 10 \<Longrightarrow> digit_char n \<noteq> CHR ''-''"
proof
  assume n: "n < 10" and "digit_char n = CHR ''-''"
  then have "of_char (digit_char n) = (of_char (CHR ''-'') :: nat)" by simp
  with n show False by (simp add: digit_char_def)
qed

lemma str_of_nat_hd: "str_of_nat n \<noteq> [] \<and> hd (str_of_nat n) \<noteq> CHR ''-''"
proof (induction n rule: str_of_nat.induct)
  case (1 n)
  show ?case
  proof (cases "n < 10")
    case True
    then show ?thesis
      by (subst (1 2) str_of_nat.simps) (simp add: digit_char_not_minus)
  next
    case False
    with 1 show ?thesis
      by (subst (1 2) str_of_nat.simps) simp
  qed
qed

lemma str_of_int_inj: "str_of_int i = str_of_int j \<longleftrightarrow> i = j"
proof
  assume eq: "str_of_int i = str_of_int j"
  consider "i < 0" "j < 0" | "i \<ge> 0" "j \<ge> 0" | "i < 0" "j \<ge> 0" | "i \<ge> 0" "j < 0"
    by linarith
  then show "i = j"
  proof cases
    case 1
    with eq have "nat (- i) = nat (- j)"
      by (auto simp: str_of_int_def dest: str_of_nat_inj)
    with 1 show ?thesis by simp
  next
    case 2
    with eq have "nat i = nat j"
      by (auto simp: str_of_int_def dest: str_of_nat_inj)
    with 2 show ?thesis by simp
  next
    case 3
    with eq have "hd (str_of_nat (nat j)) = CHR ''-''"
      by (auto simp: str_of_int_def dest: arg_cong [where f = hd])
    with str_of_nat_hd show ?thesis by blast
  next
    case 4
    with eq have "hd (str_of_nat (nat i)) = CHR ''-''"
      by (auto simp: str_of_int_def dest: arg_cong [where f = hd])
    with str_of_nat_hd show ?thesis by blast
  qed
qed simp

section \<open>Quarter-over-quarter change\<close>

lemma group_shift_length: "length (group_shift prev dws) = length dws"
  by (induction dws arbitrary: prev) auto

text \<open>
  Restricted to one distributor, the shifted column is the column of that distributor's
  waste totals moved down by one row.
\<close>

lemma group_shift_filter:
  assumes "init = (case prev d of None \<Rightarrow> NaN | Some p \<Rightarrow> p)"
  shows "map (\<lambda>(r, s). (total_waste r, s))
     (filter (\<lambda>(r, s). dq_distributor r = d)
        (zip tbl (group_shift prev (map (\<lambda>r. (dq_distributor r, total_waste r)) tbl))))
   = zip (map total_waste (filter (\<lambda>r. dq_distributor r = d) tbl))
       (init # map total_waste (filter (\<lambda>r. dq_distributor r = d) tbl))"
  using assms
proof (induction tbl arbitrary: prev init)
  case Nil
  then show ?case by simp
next
  case (Cons r tbl)
  let ?ws = "map total_waste (filter (\<lambda>r. dq_distributor r = d) tbl)"
  let ?sel = "\<lambda>p. map (\<lambda>(r, s). (total_waste r, s))
     (filter (\<lambda>(r, s). dq_distributor r = d)
        (zip tbl (group_shift p (map (\<lambda>r. (dq_distributor r, total_waste r)) tbl))))"
  show ?case
  proof (cases "dq_distributor r = d")
    case True
    have "?sel (prev(d \<mapsto> total_waste r)) = zip ?ws (total_waste r # ?ws)"
      by (rule Cons.IH) simp
    with True Cons.prems show ?thesis by simp
  next
    case False
    have "?sel (prev(dq_distributor r \<mapsto> total_waste r)) = zip ?ws (init # ?ws)"
      by (rule Cons.IH) (use False Cons.prems in auto)
    with False show ?thesis by simp
  qed
qed

lemma zip_map_zip:
  "length ys = length xs \<Longrightarrow>
     zip xs (map h (zip (map f xs) ys)) = map (\<lambda>(x, y). (x, h (f x, y))) (zip xs ys)"
  by (induction xs ys rule: list_induct2') simp_all

lemma with_status_eq:
  "with_status tbl =
     map (\<lambda>(r, s). lim_row.extend r
            (dq_row.fields (change_pct (total_waste r) s)
               (distributor_status (pct_from_limit r) (change_pct (total_waste r) s))))
       (zip tbl (group_shift Map.empty (map (\<lambda>r. (dq_distributor r, total_waste r)) tbl)))"
proof -
  let ?G = "group_shift Map.empty (map (\<lambda>r. (dq_distributor r, total_waste r)) tbl)"
  have len: "length ?G = length tbl" by (simp add: group_shift_length)
  have "pct_change_col tbl = map (\<lambda>(w, p). change_pct w p) (zip (map total_waste tbl) ?G)"
    by (simp add: pct_change_col_def group_pct_change_def change_pct_def comp_def
        case_prod_unfold)
  then show ?thesis
    unfolding with_status_def by (simp add: zip_map_zip [OF len] case_prod_unfold comp_def)
qed

lemma change_pct_NaN: "change_pct w NaN = NaN"
  by (cases w) (simp_all add: change_pct_def fsub_def)

lemma with_status_distributor:
  fixes tbl :: "lim_row list" and d :: int
  defines "ts \<equiv> filter (\<lambda>r. dq_distributor r = d) (with_status tbl)"
  defines "ws \<equiv> map total_waste (filter (\<lambda>r. dq_distributor r = d) tbl)"
  shows "map total_waste ts = ws"
    and "map (\<lambda>r. (dq_year r, dq_quarter r)) ts
           = map (\<lambda>r. (dq_year r, dq_quarter r)) (filter (\<lambda>r. dq_distributor r = d) tbl)"
    and "map pct_change_Wastes_from_last_quarter ts = map (\<lambda>(w, p). change_pct w p) (zip ws (NaN # ws))"
proof -
  let ?G = "group_shift Map.empty (map (\<lambda>r. (dq_distributor r, total_waste r)) tbl)"
  let ?Z = "filter (\<lambda>(r, s). dq_distributor r = d) (zip tbl ?G)"
  let ?ext = "\<lambda>(r, s). lim_row.extend r
            (dq_row.fields (change_pct (total_waste r) s)
               (distributor_status (pct_from_limit r) (change_pct (total_waste r) s)))"
  have ts: "ts = map ?ext ?Z"
    unfolding ts_def with_status_eq filter_map
    by (simp add: comp_def case_prod_unfold dq_row_sel)
  have Z: "map (\<lambda>(r, s). (total_waste r, s)) ?Z = zip ws (NaN # ws)"
    unfolding ws_def by (rule group_shift_filter) simp
  have len: "length ?G = length tbl" by (simp add: group_shift_length)
  have fstZ: "map fst ?Z = filter (\<lambda>r. dq_distributor r = d) tbl"
  proof -
    have "map fst ?Z = filter (\<lambda>r. dq_distributor r = d) (map fst (zip tbl ?G))"
      by (simp add: filter_map comp_def case_prod_unfold)
    then show ?thesis by (simp add: len)
  qed
  have "map total_waste ts = map (\<lambda>(r, s). total_waste r) ?Z"
    by (simp add: ts comp_def case_prod_unfold dq_row_sel)
  also have "\<dots> = map total_waste (map fst ?Z)"
    by (simp add: comp_def case_prod_unfold)
  finally show "map total_waste ts = ws" by (simp add: fstZ ws_def)
  have "map (\<lambda>r. (dq_year r, dq_quarter r)) ts = map (\<lambda>r. (dq_year r, dq_quarter r)) (map fst ?Z)"
    by (simp add: ts comp_def case_prod_unfold dq_row_sel)
  then show "map (\<lambda>r. (dq_year r, dq_quarter r)) ts
           = map (\<lambda>r. (dq_year r, dq_quarter r)) (filter (\<lambda>r. dq_distributor r = d) tbl)"
    by (simp add: fstZ)
  have "map pct_change_Wastes_from_last_quarter ts
          = map (\<lambda>(w, p). change_pct w p) (map (\<lambda>(r, s). (total_waste r, s)) ?Z)"
    by (simp add: ts comp_def case_prod_unfold dq_row_sel)
  then show "map pct_change_Wastes_from_last_quarter ts
               = map (\<lambda>(w, p). change_pct w p) (zip ws (NaN # ws))"
    by (simp add: Z)
qed

lemma sorted_time_of_distributor:
  fixes tbl :: "lim_row list"
  shows "sorted (map (\<lambda>r. (dq_year r, dq_quarter r))
           (filter (\<lambda>r. dq_distributor r = d) (sort_by_distributor_time tbl)))"
proof -
  let ?K = "\<lambda>r::lim_row. (dq_distributor r, dq_year r, dq_quarter r)"
  let ?S = "filter (\<lambda>r. dq_distributor r = d) (sort_by_distributor_time tbl)"
  have "sorted (map ?K ?S)"
    unfolding sort_by_distributor_time_def by (rule sorted_filter) simp
  then have "sorted_wrt (\<lambda>a b. ?K a \<le> ?K b) ?S"
    by (simp add: sorted_map)
  then have "sorted_wrt (\<lambda>a b. (dq_year a, dq_quarter a) \<le> (dq_year b, dq_quarter b)) ?S"
  proof (rule sorted_wrt_mono_rel [rotated])
    fix a b assume "a \<in> set ?S" "b \<in> set ?S" "?K a \<le> ?K b"
    then show "(dq_year a, dq_quarter a) \<le> (dq_year b, dq_quarter b)"
      by auto
  qed
  then show ?thesis by (simp add: sorted_map)
qed


lemma trend_point_pct:
  "tp_pct_change (trend_point_of r) =
     (if isna (pct_change_Wastes_from_last_quarter r) then None
      else Some (fround 2 (pct_change_Wastes_from_last_quarter r)))"
  by (simp add: trend_point_of_def)

text \<open>
  Claim C3.  Take the rows of one distributor in the order of the built table.  They
  are in ascending order of (year, quarter); the first one has no quarter-over-quarter
  change (NaN), and each later one has (waste / previous waste - 1) * 100 rounded to 2
  decimals, where the previous waste is that of the row just before it.  The trend
  endpoint answers 404 for a distributor without rows; for any other it replies with
  exactly these rows in the same order, writing a NaN change as an explicit null and any
  other as the number, so the first entry of the reply carries null.
\<close>

theorem pct_change_from_prior_quarter:
  assumes "build_distributor_quarter_df columns rows = Inr tbl"
    and "ts = filter (\<lambda>r. dq_distributor r = d) tbl"
  shows "sorted (map (\<lambda>r. (dq_year r, dq_quarter r)) ts)
    \<and> (ts \<noteq> [] \<longrightarrow> pct_change_Wastes_from_last_quarter (hd ts) = NaN)
    \<and> (\<forall>i. Suc i < length ts \<longrightarrow>
          pct_change_Wastes_from_last_quarter (ts ! Suc i)
            = change_pct (total_waste (ts ! Suc i)) (total_waste (ts ! i)))
    \<and> distributor_trend (Some tbl) (str_of_int d)
        = (if ts = [] then Inl (HTTPException 404)
           else Inr \<lparr> tr_distributor_id = str_of_int d, trend = map trend_point_of ts \<rparr>)
    \<and> map tp_pct_change (map trend_point_of ts)
        = map (\<lambda>r. if isna (pct_change_Wastes_from_last_quarter r) then None
                    else Some (fround 2 (pct_change_Wastes_from_last_quarter r))) ts
    \<and> (ts \<noteq> [] \<longrightarrow> tp_pct_change (hd (map trend_point_of ts)) = None)"
proof -
  let ?S = "sort_by_distributor_time (with_pct_from_limit (groupby_agg rows))"
  let ?ws = "map total_waste (filter (\<lambda>r. dq_distributor r = d) ?S)"
  let ?pc = "pct_change_Wastes_from_last_quarter :: dq_row \<Rightarrow> fval"
  from assms have ts: "ts = filter (\<lambda>r. dq_distributor r = d) (with_status ?S)"
    by (auto dest: build_df_Inr simp: build_table_def)
  have ws: "map total_waste ts = ?ws"
    and tm: "map (\<lambda>r. (dq_year r, dq_quarter r)) ts
               = map (\<lambda>r. (dq_year r, dq_quarter r)) (filter (\<lambda>r. dq_distributor r = d) ?S)"
    and pc: "map ?pc ts = map (\<lambda>(w, p). change_pct w p) (zip ?ws (NaN # ?ws))"
    unfolding ts by (rule with_status_distributor)+
  have len: "length ?ws = length ts"
    using ws by (metis length_map)
  have srt: "sorted (map (\<lambda>r. (dq_year r, dq_quarter r)) ts)"
    unfolding tm by (rule sorted_time_of_distributor)
  have first: "?pc (hd ts) = NaN" if "ts \<noteq> []"
  proof -
    from that len obtain w ws' where w: "?ws = w # ws'"
      by (cases ?ws) auto
    from that have "?pc (hd ts) = hd (map ?pc ts)"
      by (simp add: hd_map)
    also have "\<dots> = change_pct w NaN"
      unfolding pc w by simp
    finally show ?thesis by (simp add: change_pct_NaN)
  qed
  have later: "?pc (ts ! Suc i) = change_pct (total_waste (ts ! Suc i)) (total_waste (ts ! i))"
    if "Suc i < length ts" for i
  proof -
    from that have "?pc (ts ! Suc i) = map ?pc ts ! Suc i" by simp
    also have "\<dots> = change_pct (?ws ! Suc i) (?ws ! i)"
      unfolding pc using that len by simp
    also have "?ws ! Suc i = total_waste (ts ! Suc i)"
      using that by (simp add: ws [symmetric])
    also have "?ws ! i = total_waste (ts ! i)"
      using that by (simp add: ws [symmetric])
    finally show ?thesis .
  qed
  have sel: "filter (\<lambda>r. str_of_int (dq_distributor r) = str_of_int d) tbl = ts"
    by (simp add: str_of_int_inj assms(2))
  have reply: "distributor_trend (Some tbl) (str_of_int d)
        = (if ts = [] then Inl (HTTPException 404)
           else Inr \<lparr> tr_distributor_id = str_of_int d, trend = map trend_point_of ts \<rparr>)"
    using srt by (simp add: distributor_trend_def get_attr_def sel Let_def sort_key_id_if_sorted)
  have nulls: "map tp_pct_change (map trend_point_of ts)
        = map (\<lambda>r. if isna (?pc r) then None else Some (fround 2 (?pc r))) ts"
    by (simp add: trend_point_pct comp_def del: fround.simps)
  have null_first: "tp_pct_change (hd (map trend_point_of ts)) = None" if "ts \<noteq> []"
    using that first [OF that] by (simp add: hd_map trend_point_pct)
  from srt first later reply nulls null_first show ?thesis by blast
qed

theorem pct_change_from_prior_quarter_witness:
  "map pct_change_Wastes_from_last_quarter
       (filter (\<lambda>r. dq_distributor r = 7) (build_table two_quarters)) = [NaN, Fin 25]
   \<and> distributor_trend (Some (build_table two_quarters)) ''7''
       = Inr \<lparr> tr_distributor_id = ''7'',
               trend = [\<lparr> tp_quarter = ''2022 Q1'', tp_waste = Fin 800,
                          tp_pct_change = None, tp_status = ''Very Good'' \<rparr>,
                        \<lparr> tp_quarter = ''2022 Q2'', tp_waste = Fin 1000,
                          tp_pct_change = Some (Fin 25), tp_status = ''Very Good'' \<rparr>] \<rparr>"
proof -
  let ?T = "build_table two_quarters"
  let ?ts = "filter (\<lambda>r. dq_distributor r = 7) ?T"
  let ?pc = "pct_change_Wastes_from_last_quarter :: dq_row \<Rightarrow> fval"
  have h1: "build_distributor_quarter_df required_cols two_quarters = Inr ?T"
    by (simp add: build_distributor_quarter_df_def)
  have e1: "?ts \<noteq> []" by code_simp
  have e2: "Suc 0 < length ?ts" by code_simp
  have e3: "change_pct (total_waste (?ts ! Suc 0)) (total_waste (?ts ! 0)) = Fin 25"
    by code_simp
  have e5: "str_of_int 7 = ''7''" by code_simp
  have e8: "?ts = [hd ?ts, ?ts ! Suc 0]" by code_simp
  have e9: "map trend_point_of ?ts
              = [\<lparr> tp_quarter = ''2022 Q1'', tp_waste = Fin 800,
                          tp_pct_change = None, tp_status = ''Very Good'' \<rparr>,
                        \<lparr> tp_quarter = ''2022 Q2'', tp_waste = Fin 1000,
                          tp_pct_change = Some (Fin 25), tp_status = ''Very Good'' \<rparr>]"
    by code_simp
  from pct_change_from_prior_quarter [OF h1 refl, of 7] e1 e2
  have a: "?pc (hd ?ts) = NaN"
    and b: "?pc (?ts ! Suc 0) = change_pct (total_waste (?ts ! Suc 0)) (total_waste (?ts ! 0))"
    and c: "distributor_trend (Some ?T) (str_of_int 7)
              = Inr \<lparr> tr_distributor_id = str_of_int 7, trend = map trend_point_of ?ts \<rparr>"
    by (simp_all del: fround.simps)
  have "map ?pc ?ts = map ?pc [hd ?ts, ?ts ! Suc 0]"
    by (rule arg_cong [OF e8])
  also have "\<dots> = [NaN, Fin 25]"
    by (simp only: list.map a b e3)
  finally have "map ?pc ?ts = [NaN, Fin 25]" .
  moreover from c have "distributor_trend (Some ?T) ''7''
       = Inr \<lparr> tr_distributor_id = ''7'', trend = map trend_point_of ?ts \<rparr>"
    unfolding e5 .
  ultimately show ?thesis
    unfolding e9 by simp
qed

section \<open>Two-quarter comparison\<close>

lemma outer_merge_empty: "outer_merge l r = [] \<longleftrightarrow> l = [] \<and> r = []"
proof
  assume e: "outer_merge l r = []"
  show "l = [] \<and> r = []"
  proof (rule ccontr)
    assume "\<not> (l = [] \<and> r = [])"
    then obtain x where x: "x \<in> set l \<or> x \<in> set r"
      by (cases l; cases r) auto
    let ?k = "dq_distributor x"
    let ?ls = "filter (\<lambda>a. dq_distributor a = ?k) l"
    let ?rs = "filter (\<lambda>b. dq_distributor b = ?k) r"
    from x have k: "?k \<in> set (sort (remdups (map dq_distributor l @ map dq_distributor r)))"
      by auto
    from x have ne: "?ls \<noteq> [] \<or> ?rs \<noteq> []"
      by (auto simp: filter_empty_conv)
    from e k have "(if ?rs = [] then map (\<lambda>a. (?k, Some a, None)) ?ls
           else if ?ls = [] then map (\<lambda>b. (?k, None, Some b)) ?rs
           else concat (map (\<lambda>a. map (\<lambda>b. (?k, Some a, Some b)) ?rs) ?ls)) = []"
      unfolding outer_merge_def Let_def concat_eq_Nil_conv by (auto simp del: set_sort set_remdups)
    with ne show False
      by (cases ?ls; cases ?rs) (auto split: if_splits)
  qed
next
  assume "l = [] \<and> r = []"
  then show "outer_merge l r = []"
    by (simp add: outer_merge_def)
qed

text \<open>
  Claim C5.  When no row of the table has the requested state, the comparison fails with
  status 404, whatever the quarter labels are.  When the state has rows, the two labels
  differ and parse, and the outer join of the two quarter subsets of the selected
  distributors is empty, the comparison returns a reply whose comparison list is empty.
\<close>

theorem quarter_comparison_not_found_or_empty:
  "(filter (\<lambda>r. dq_state r = state) dq = []
      \<longrightarrow> quarter_comparison (Some dq) state quarter_a quarter_b d1 d2 = Inl (HTTPException 404))
   \<and> (filter (\<lambda>r. dq_state r = state) dq \<noteq> [] \<and> quarter_a \<noteq> quarter_b
        \<and> parse_quarter quarter_a = Inr (y1, q1) \<and> parse_quarter quarter_b = Inr (y2, q2)
        \<and> outer_merge
             (quarter_rows (filter (\<lambda>r. dq_state r = state) dq) y1 q1 (selected_distributors d1 d2))
             (quarter_rows (filter (\<lambda>r. dq_state r = state) dq) y2 q2 (selected_distributors d1 d2))
            = []
      \<longrightarrow> (\<exists>resp. quarter_comparison (Some dq) state quarter_a quarter_b d1 d2 = Inr resp
                  \<and> comparison resp = []))"
  by (simp add: quarter_comparison_def get_attr_def Let_def empty_comparison_def)

theorem quarter_comparison_not_found_or_empty_witness:
  "quarter_comparison (Some (build_table two_quarters)) ''ZZ'' ''2022 Q1'' ''2022 Q2'' ''7'' None
     = Inl (HTTPException 404)
   \<and> (\<exists>resp. quarter_comparison (Some (build_table two_quarters)) ''TX'' ''2022 Q1'' ''2022 Q2''
                ''9'' None = Inr resp \<and> comparison resp = [])"
proof -
  let ?T = "build_table two_quarters"
  have a: "filter (\<lambda>r. dq_state r = ''ZZ'') ?T = []" by code_simp
  have b1: "filter (\<lambda>r. dq_state r = ''TX'') ?T \<noteq> []" by code_simp
  have b2: "''2022 Q1'' \<noteq> ''2022 Q2''" by simp
  have b3: "parse_quarter ''2022 Q1'' = Inr (2022, ''Q1'')" by code_simp
  have b4: "parse_quarter ''2022 Q2'' = Inr (2022, ''Q2'')" by code_simp
  have b5: "outer_merge
             (quarter_rows (filter (\<lambda>r. dq_state r = ''TX'') ?T) 2022 ''Q1'' (selected_distributors ''9'' None))
             (quarter_rows (filter (\<lambda>r. dq_state r = ''TX'') ?T) 2022 ''Q2'' (selected_distributors ''9'' None))
            = []" by code_simp
  from quarter_comparison_not_found_or_empty
         [where state = "''ZZ''" and dq = ?T and quarter_a = "''2022 Q1''"
            and quarter_b = "''2022 Q2''" and ?d1.0 = "''7''" and ?d2.0 = None] a
  have "quarter_comparison (Some ?T) ''ZZ'' ''2022 Q1'' ''2022 Q2'' ''7'' None
          = Inl (HTTPException 404)" by blast
  moreover
  from quarter_comparison_not_found_or_empty
         [where state = "''TX''" and dq = ?T and quarter_a = "''2022 Q1''"
            and quarter_b = "''2022 Q2''" and ?d1.0 = "''9''" and ?d2.0 = None
            and ?y1.0 = 2022 and ?q1.0 = "''Q1''" and ?y2.0 = 2022 and ?q2.0 = "''Q2''"]
       b1 b2 b3 b4 b5
  have "\<exists>resp. quarter_comparison (Some ?T) ''TX'' ''2022 Q1'' ''2022 Q2'' ''9'' None = Inr resp
          \<and> comparison resp = []" by blast
  ultimately show ?thesis by blast
qed

text \<open>
  Claim C4 at a failing input.  Distributors 101 and 102 are both selected and both have
  a row for Texas in 2022 Q1.  With the same label for both quarters the reply holds one
  entry, made from the first of the two rows; the row of distributor 102 is dropped.
\<close>

theorem same_quarter_single_entry:
  "quarter_comparison (Some (build_table two_distributors))
      ''TX'' ''2022 Q1'' ''2022 Q1'' ''101'' (Some ''102'')
     = Inr (full_comparison ''TX'' ''2022 Q1'' ''2022 Q1''
              [same_quarter_entry (hd (build_table two_distributors))])
   \<and> dq_distributor (hd (build_table two_distributors)) = 101
   \<and> map dq_distributor
       (quarter_rows (filter (\<lambda>r. dq_state r = ''TX'') (build_table two_distributors))
          2022 ''Q1'' (selected_distributors ''101'' (Some ''102''))) = [101, 102]"
  by code_simp



lemma quarter_comparison_same:
  "quarter_comparison (Some dq) state q q d1 d2 =
     (if filter (\<lambda>r. dq_state r = state) dq = [] then Inl (HTTPException 404)
      else case parse_quarter q of
             Inl e \<Rightarrow> Inl e
           | Inr (y, qq) \<Rightarrow>
               (case quarter_rows (filter (\<lambda>r. dq_state r = state) dq) y qq
                       (selected_distributors d1 d2) of
                  [] \<Rightarrow> Inr empty_comparison
                | base # rest \<Rightarrow> Inr (full_comparison state q q [same_quarter_entry base])))"
  by (simp add: quarter_comparison_def get_attr_def Let_def split: sum.splits prod.splits)

text \<open>
  What the same-quarter branch does deliver: every entry it returns has delta 0, the flat
  mark, and the status of its own row on both sides of the arrow.
\<close>

lemma same_quarter_entries_flat:
  assumes "quarter_comparison (Some dq) state q q d1 d2 = Inr resp"
    and "e \<in> set (comparison resp)"
  shows "delta e = Fin 0 \<and> ce_trend e = ArrowFlat
         \<and> (\<exists>base\<in>set dq. ce_distributor_id e = dq_distributor base
               \<and> status_change e = Status base @ arrow_sep @ Status base)"
proof -
  let ?dq = "filter (\<lambda>r. dq_state r = state) dq"
  from assms(1) obtain y qq where p: "parse_quarter q = Inr (y, qq)" and ne: "?dq \<noteq> []"
    unfolding quarter_comparison_same by (cases "parse_quarter q") (auto split: if_splits)
  let ?rows = "quarter_rows ?dq y qq (selected_distributors d1 d2)"
  show ?thesis
  proof (cases ?rows)
    case Nil
    with assms p ne show ?thesis
      unfolding quarter_comparison_same by (auto simp: empty_comparison_def)
  next
    case (Cons base rest)
    with assms p ne have e: "e = same_quarter_entry base"
      unfolding quarter_comparison_same by (auto simp: full_comparison_def)
    from Cons have "base \<in> set ?rows" by simp
    then have "base \<in> set dq" by (simp add: quarter_rows_def)
    then show ?thesis
      unfolding e by (auto simp: same_quarter_entry_def)
  qed
qed


section \<open>Alert deduplication and summary\<close>

lemma drop_duplicates_subset: "set (drop_duplicates seen xs) \<subseteq> set xs"
  by (induction xs arbitrary: seen) auto

lemma drop_duplicates_ids:
  "distributor_id ` set (drop_duplicates seen xs) = distributor_id ` set xs - set seen"
  by (induction xs arbitrary: seen) auto

lemma drop_duplicates_distinct: "distinct (map distributor_id (drop_duplicates seen xs))"
proof (induction xs arbitrary: seen)
  case Nil
  then show ?case by simp
next
  case (Cons a xs)
  have "distributor_id a \<notin> distributor_id ` set (drop_duplicates (distributor_id a # seen) xs)"
    by (simp add: drop_duplicates_ids)
  with Cons show ?case by simp
qed

text \<open>In a list ordered by falling priority, the alert kept for a distributor is its best.\<close>

lemma drop_duplicates_best:
  assumes "sorted_wrt (\<lambda>a b. priority (severity b) \<le> priority (severity a)) xs"
    and "a \<in> set (drop_duplicates seen xs)"
    and "b \<in> set xs" and "distributor_id b = distributor_id a"
  shows "priority (severity b) \<le> priority (severity a)"
  using assms
proof (induction xs arbitrary: seen)
  case Nil
  then show ?case by simp
next
  case (Cons x xs)
  from Cons.prems(2) have notseen: "distributor_id a \<notin> set seen"
    using drop_duplicates_ids [of seen "x # xs"] by blast
  show ?case
  proof (cases "distributor_id x \<in> set seen")
    case True
    with notseen Cons.prems have "b \<in> set xs" "a \<in> set (drop_duplicates seen xs)"
      by auto
    with Cons show ?thesis by simp
  next
    case False
    show ?thesis
    proof (cases "a = x")
      case True
      with Cons.prems(1,3) show ?thesis by auto
    next
      case ax: False
      with False Cons.prems(2)
      have a: "a \<in> set (drop_duplicates (distributor_id x # seen) xs)" by simp
      then have "distributor_id a \<noteq> distributor_id x"
        using drop_duplicates_ids [of "distributor_id x # seen" xs] by auto
      with Cons.prems have "b \<in> set xs" by auto
      with Cons a show ?thesis by simp
    qed
  qed
qed

lemma sort_priority_desc_sorted:
  "sorted_wrt (\<lambda>a b. priority (severity b) \<le> priority (severity a)) (sort_priority_desc als)"
proof -
  have "sorted (map (\<lambda>a. - priority (severity a)) (sort_priority_desc als))"
    by (simp add: sort_priority_desc_def)
  then show ?thesis by (simp add: sorted_map)
qed

lemma sort_priority_desc_set: "set (sort_priority_desc als) = set als"
  by (simp add: sort_priority_desc_def)

lemma dedup_alerts_subset: "set (dedup_alerts als) \<subseteq> set als"
  unfolding dedup_alerts_def using drop_duplicates_subset [of "[]" "sort_priority_desc als"]
  by (simp add: sort_priority_desc_set)

lemma dedup_alerts_ids: "distributor_id ` set (dedup_alerts als) = distributor_id ` set als"
  by (simp add: dedup_alerts_def drop_duplicates_ids sort_priority_desc_set)

lemma dedup_alerts_distinct: "distinct (map distributor_id (dedup_alerts als))"
  by (simp add: dedup_alerts_def drop_duplicates_distinct)

lemma distinct_key_filter_one:
  assumes "distinct (map f xs)" and "k \<in> f ` set xs"
  shows "length (filter (\<lambda>x. f x = k) xs) = 1"
  using assms
proof (induction xs)
  case Nil
  then show ?case by simp
next
  case (Cons x xs)
  show ?case
  proof (cases "f x = k")
    case True
    from Cons.prems(1) have "f x \<notin> f ` set xs" by simp
    with True have "\<forall>y\<in>set xs. f y \<noteq> k" by blast
    then have "filter (\<lambda>y. f y = k) xs = []"
      by (simp add: filter_empty_conv)
    with True show ?thesis by simp
  next
    case False
    with Cons show ?thesis by auto
  qed
qed

lemma severity_of_priority:
  "priority s = 3 \<longleftrightarrow> s = HIGH" "priority s = 2 \<longleftrightarrow> s = MEDIUM" "priority s = 1 \<longleftrightarrow> s = LOW"
  "1 \<le> priority s" "priority s \<le> 3"
  by (cases s; simp)+

text \<open>
  Claim C6.  A distributor with at least one alert before deduplication has exactly one
  alert after it.  That alert is one of its alerts from before, and its severity is the
  highest among them in the order HIGH (3) > MEDIUM (2) > LOW (1): HIGH if the
  distributor had a HIGH alert, else MEDIUM if it had a MEDIUM alert, else LOW.
\<close>

theorem dedup_keeps_highest:
  assumes "d \<in> distributor_id ` set als"
  shows "priority HIGH = 3 \<and> priority MEDIUM = 2 \<and> priority LOW = 1
    \<and> (\<exists>a. filter (\<lambda>a. distributor_id a = d) (dedup_alerts als) = [a]
          \<and> a \<in> set als
          \<and> (\<forall>b\<in>set als. distributor_id b = d \<longrightarrow>
                priority (severity b) \<le> priority (severity a))
          \<and> severity a =
              (if \<exists>b\<in>set als. distributor_id b = d \<and> severity b = HIGH then HIGH
               else if \<exists>b\<in>set als. distributor_id b = d \<and> severity b = MEDIUM then MEDIUM
               else LOW))"
proof -
  let ?kept = "filter (\<lambda>a. distributor_id a = d) (dedup_alerts als)"
  from assms have "d \<in> distributor_id ` set (dedup_alerts als)"
    by (simp add: dedup_alerts_ids)
  with dedup_alerts_distinct have "length ?kept = 1"
    by (rule distinct_key_filter_one)
  then obtain a where kept: "?kept = [a]"
    by (cases ?kept) auto
  then have "a \<in> set ?kept" by simp
  then have a: "a \<in> set (dedup_alerts als)" and da: "distributor_id a = d"
    by simp_all
  from a dedup_alerts_subset [of als] have mem: "a \<in> set als" by blast
  have best: "priority (severity b) \<le> priority (severity a)"
    if "b \<in> set als" "distributor_id b = d" for b
  proof (rule drop_duplicates_best [OF sort_priority_desc_sorted])
    show "a \<in> set (drop_duplicates [] (sort_priority_desc als))"
      using a by (simp add: dedup_alerts_def)
    show "b \<in> set (sort_priority_desc als)"
      using that(1) by (simp add: sort_priority_desc_set)
    show "distributor_id b = distributor_id a"
      using that da by simp
  qed
  have sev: "severity a =
              (if \<exists>b\<in>set als. distributor_id b = d \<and> severity b = HIGH then HIGH
               else if \<exists>b\<in>set als. distributor_id b = d \<and> severity b = MEDIUM then MEDIUM
               else LOW)"
  proof (cases "\<exists>b\<in>set als. distributor_id b = d \<and> severity b = HIGH")
    case True
    then obtain b where "b \<in> set als" "distributor_id b = d" "severity b = HIGH" by blast
    with best [of b] have "3 \<le> priority (severity a)" by simp
    with severity_of_priority(5) [of "severity a"] have "priority (severity a) = 3" by linarith
    with True show ?thesis by (simp add: severity_of_priority)
  next
    case noHigh: False
    with mem da have notH: "severity a \<noteq> HIGH" by blast
    show ?thesis
    proof (cases "\<exists>b\<in>set als. distributor_id b = d \<and> severity b = MEDIUM")
      case True
      then obtain b where "b \<in> set als" "distributor_id b = d" "severity b = MEDIUM" by blast
      with best [of b] have "2 \<le> priority (severity a)" by simp
      with notH have "severity a = MEDIUM" by (cases "severity a") simp_all
      with noHigh True show ?thesis by simp
    next
      case False
      with mem da have "severity a \<noteq> MEDIUM" by blast
      with notH have "severity a = LOW" by (cases "severity a") simp_all
      with noHigh False show ?thesis by simp
    qed
  qed
  from kept mem best sev show ?thesis by auto
qed

theorem dedup_keeps_highest_witness:
  "map severity (filter (\<lambda>a. distributor_id a = 5) unordered_alerts) = [LOW, HIGH]
   \<and> map severity (filter (\<lambda>a. distributor_id a = 5) (dedup_alerts unordered_alerts)) = [HIGH]
   \<and> map severity (drop_duplicates [] unordered_alerts) = [LOW, MEDIUM]"
proof -
  have h: "5 \<in> distributor_id ` set unordered_alerts" by code_simp
  have hi: "\<exists>b\<in>set unordered_alerts. distributor_id b = 5 \<and> severity b = HIGH" by code_simp
  have f: "map severity (filter (\<lambda>a. distributor_id a = 5) unordered_alerts) = [LOW, HIGH]"
    by code_simp
  have g: "map severity (drop_duplicates [] unordered_alerts) = [LOW, MEDIUM]"
    by code_simp
  from dedup_keeps_highest [OF h] hi obtain a
    where "filter (\<lambda>a. distributor_id a = 5) (dedup_alerts unordered_alerts) = [a]"
      and "severity a = HIGH"
    by auto
  then have "map severity (filter (\<lambda>a. distributor_id a = 5) (dedup_alerts unordered_alerts))
               = [HIGH]"
    by simp
  with f g show ?thesis by blast
qed

lemma summary_count_summarize: "summary_count (summarize als) s = nunique s als"
  by (cases s) (simp_all add: summarize_def)

lemma dedup_bucket_le:
  "length (filter (\<lambda>a. severity a = s) (dedup_alerts als)) \<le> nunique s als"
proof -
  let ?D = "filter (\<lambda>a. severity a = s) (dedup_alerts als)"
  have "distinct (map distributor_id ?D)"
    using dedup_alerts_distinct by (rule distinct_map_filter)
  then have "length ?D = card (distributor_id ` set ?D)"
    by (metis distinct_card length_map set_map)
  also have "\<dots> \<le> card (distributor_id ` set (filter (\<lambda>a. severity a = s) als))"
  proof (rule card_mono)
    show "finite (distributor_id ` set (filter (\<lambda>a. severity a = s) als))" by simp
    show "distributor_id ` set ?D \<subseteq> distributor_id ` set (filter (\<lambda>a. severity a = s) als)"
      using dedup_alerts_subset [of als] by auto
  qed
  also have "\<dots> = nunique s als"
    by (simp add: nunique_def length_remdups_card_conv)
  finally show ?thesis .
qed

lemma get_alerts_Inr:
  assumes "get_alerts (Some df) sev dsel st = Inr r"
  shows "summary r = summarize (generate_alerts df)"
    and "\<exists>P. alerts r = filter P (dedup_alerts (generate_alerts df))"
proof -
  let ?als = "generate_alerts df"
  let ?d1 = "dedup_alerts ?als"
  let ?d2 = "if upper sev \<noteq> ''ALL''
             then filter (\<lambda>a. severity_name (severity a) = upper sev) ?d1 else ?d1"
  have d2: "\<exists>P. ?d2 = filter P ?d1"
    by (cases "upper sev \<noteq> ''ALL''") (auto intro: exI [of _ "\<lambda>_. True"])
  have st: "\<exists>P. (if st \<noteq> ''ALL'' then filter (\<lambda>a. alert_state a = st) (filter Q ?d1)
                   else filter Q ?d1) = filter P ?d1" for Q
    by (cases "st \<noteq> ''ALL''") auto
  from assms have ne: "?als \<noteq> []"
    by (auto simp: get_alerts_def get_attr_def Let_def split: if_splits)
  show "summary r = summarize ?als"
  proof (cases "dsel \<noteq> ''ALL''")
    case True
    with assms ne show ?thesis
      by (cases "py_int dsel") (auto simp: get_alerts_def get_attr_def Let_def)
  next
    case False
    with assms ne show ?thesis
      by (auto simp: get_alerts_def get_attr_def Let_def)
  qed
  from d2 obtain P2 where P2: "?d2 = filter P2 ?d1" by blast
  show "\<exists>P. alerts r = filter P ?d1"
  proof (cases "dsel \<noteq> ''ALL''")
    case True
    with assms ne obtain n where n: "py_int dsel = Some n"
      by (cases "py_int dsel") (auto simp: get_alerts_def get_attr_def Let_def)
    with True assms ne
    have "alerts r = (if st \<noteq> ''ALL''
                      then filter (\<lambda>a. alert_state a = st)
                             (filter (\<lambda>a. distributor_id a = n) ?d2)
                      else filter (\<lambda>a. distributor_id a = n) ?d2)"
      by (auto simp: get_alerts_def get_attr_def Let_def)
    then have "alerts r = (if st \<noteq> ''ALL''
                      then filter (\<lambda>a. alert_state a = st)
                             (filter (\<lambda>a. P2 a \<and> distributor_id a = n) ?d1)
                      else filter (\<lambda>a. P2 a \<and> distributor_id a = n) ?d1)"
      unfolding P2 by (simp add: conj_commute)
    with st [of "\<lambda>a. P2 a \<and> distributor_id a = n"] show ?thesis by metis
  next
    case False
    with assms ne
    have "alerts r = (if st \<noteq> ''ALL'' then filter (\<lambda>a. alert_state a = st) ?d2 else ?d2)"
      by (auto simp: get_alerts_def get_attr_def Let_def)
    then have "alerts r = (if st \<noteq> ''ALL'' then filter (\<lambda>a. alert_state a = st) (filter P2 ?d1)
                           else filter P2 ?d1)"
      unfolding P2 .
    with st [of P2] show ?thesis by metis
  qed
qed

lemma nunique_card:
  "nunique s als = card (distributor_id ` set (filter (\<lambda>a. severity a = s) als))"
  by (simp add: nunique_def length_remdups_card_conv)

text \<open>When the alerts endpoint replies at all.\<close>

lemma get_alerts_replies:
  assumes "generate_alerts df \<noteq> []" and "dsel = ''ALL'' \<or> py_int dsel \<noteq> None"
  shows "\<exists>r. get_alerts (Some df) sev dsel st = Inr r"
proof (cases "dsel = ''ALL''")
  case True
  with assms(1) show ?thesis
    by (simp add: get_alerts_def get_attr_def Let_def)
next
  case False
  with assms(2) obtain n where "py_int dsel = Some n" by auto
  with False assms(1) show ?thesis
    by (simp add: get_alerts_def get_attr_def Let_def)
qed

lemma get_alerts_raises:
  "generate_alerts df = [] \<Longrightarrow> get_alerts (Some df) sev dsel st = Inl KeyError"
  "generate_alerts df \<noteq> [] \<Longrightarrow> dsel \<noteq> ''ALL'' \<Longrightarrow> py_int dsel = None
     \<Longrightarrow> get_alerts (Some df) sev dsel st = Inl ValueError"
  by (simp_all add: get_alerts_def get_attr_def Let_def)

text \<open>
  Claim C7, amended.  When the data give at least one alert and the distributor filter
  is ALL or an integer, the alerts endpoint replies, and whatever the three filter
  arguments are the summary of the reply holds, for each severity, the number of
  distinct distributors among the alerts of that severity before deduplication.  That
  number is at least the number of alerts of the severity after deduplication, and at
  least the number in the returned list, which holds deduplicated alerts only.
\<close>

theorem summary_before_dedup:
  assumes "generate_alerts df \<noteq> []" and "dsel = ''ALL'' \<or> py_int dsel \<noteq> None"
  shows "\<exists>r. get_alerts (Some df) sev dsel st = Inr r
    \<and> summary r =
        \<lparr> high = card (distributor_id ` set (filter (\<lambda>a. severity a = HIGH) (generate_alerts df))),
          medium = card (distributor_id ` set (filter (\<lambda>a. severity a = MEDIUM) (generate_alerts df))),
          low = card (distributor_id ` set (filter (\<lambda>a. severity a = LOW) (generate_alerts df))) \<rparr>
    \<and> (\<forall>s. length (filter (\<lambda>a. severity a = s) (dedup_alerts (generate_alerts df)))
              \<le> summary_count (summary r) s)
    \<and> (\<forall>s. length (filter (\<lambda>a. severity a = s) (alerts r)) \<le> summary_count (summary r) s)
    \<and> set (alerts r) \<subseteq> set (dedup_alerts (generate_alerts df))"
proof -
  let ?als = "generate_alerts df"
  from get_alerts_replies [OF assms] obtain r
    where r: "get_alerts (Some df) sev dsel st = Inr r" by blast
  from get_alerts_Inr [OF r] obtain P
    where s: "summary r = summarize ?als" and a: "alerts r = filter P (dedup_alerts ?als)"
    by blast
  have cnt: "summary_count (summary r) s = nunique s ?als" for s
    by (simp add: s summary_count_summarize)
  have sm: "summary r =
        \<lparr> high = card (distributor_id ` set (filter (\<lambda>a. severity a = HIGH) ?als)),
          medium = card (distributor_id ` set (filter (\<lambda>a. severity a = MEDIUM) ?als)),
          low = card (distributor_id ` set (filter (\<lambda>a. severity a = LOW) ?als)) \<rparr>"
    unfolding s summarize_def nunique_card ..
  have post: "length (filter (\<lambda>a. severity a = s) (dedup_alerts ?als))
                \<le> summary_count (summary r) s" for s
    by (simp add: cnt dedup_bucket_le)
  have ret: "length (filter (\<lambda>a. severity a = s) (alerts r)) \<le> summary_count (summary r) s" for s
  proof -
    have "filter (\<lambda>a. severity a = s) (alerts r)
            = filter P (filter (\<lambda>a. severity a = s) (dedup_alerts ?als))"
      unfolding a by (simp add: conj_commute)
    then have "length (filter (\<lambda>a. severity a = s) (alerts r))
                 = length (filter P (filter (\<lambda>a. severity a = s) (dedup_alerts ?als)))"
      by (simp only:)
    also have "\<dots> \<le> length (filter (\<lambda>a. severity a = s) (dedup_alerts ?als))"
      by (rule length_filter_le)
    finally show ?thesis
      using post [of s] by linarith
  qed
  have sub: "set (alerts r) \<subseteq> set (dedup_alerts ?als)"
    unfolding a by auto
  from r sm post ret sub show ?thesis by blast
qed

theorem summary_before_dedup_witness:
  "map severity (generate_alerts two_state_rows) = [HIGH, HIGH, MEDIUM, LOW]
   \<and> map distributor_id (generate_alerts two_state_rows) = [5, 5, 5, 6]
   \<and> (\<exists>r. get_alerts (Some two_state_rows) ''high'' ''5'' ''ALL'' = Inr r
          \<and> summary r = \<lparr> high = 1, medium = 1, low = 1 \<rparr>
          \<and> length (alerts r) \<le> 1)"
proof -
  let ?als = "generate_alerts two_state_rows"
  have h1: "?als \<noteq> []" by code_simp
  have h2: "''5'' = ''ALL'' \<or> py_int ''5'' \<noteq> None" by code_simp
  have c1: "card (distributor_id ` set (filter (\<lambda>a. severity a = HIGH) ?als)) = 1"
    by code_simp
  have c2: "card (distributor_id ` set (filter (\<lambda>a. severity a = MEDIUM) ?als)) = 1"
    by code_simp
  have c3: "card (distributor_id ` set (filter (\<lambda>a. severity a = LOW) ?als)) = 1"
    by code_simp
  have e1: "map severity ?als = [HIGH, HIGH, MEDIUM, LOW]" by code_simp
  have e2: "map distributor_id ?als = [5, 5, 5, 6]" by code_simp
  have e3: "length (filter (\<lambda>a. severity a = HIGH) (filter (\<lambda>a. distributor_id a = 5)
              (dedup_alerts ?als))) \<le> 1" by code_simp
  from summary_before_dedup [OF h1 h2, of "''high''" "''ALL''"] obtain r
    where r: "get_alerts (Some two_state_rows) ''high'' ''5'' ''ALL'' = Inr r"
      and s: "summary r = \<lparr> high = 1, medium = 1, low = 1 \<rparr>"
      and l: "length (filter (\<lambda>a. severity a = HIGH) (alerts r)) \<le> summary_count (summary r) HIGH"
      and sub: "set (alerts r) \<subseteq> set (dedup_alerts ?als)"
    unfolding c1 c2 c3 by blast
  have "get_alerts (Some two_state_rows) ''high'' ''5'' ''ALL''
          = Inr \<lparr> summary = summarize ?als,
                  alerts = filter (\<lambda>a. distributor_id a = 5)
                             (filter (\<lambda>a. severity a = HIGH) (dedup_alerts ?als)) \<rparr>"
    by code_simp
  with r have "alerts r = filter (\<lambda>a. distributor_id a = 5)
                             (filter (\<lambda>a. severity a = HIGH) (dedup_alerts ?als))"
    by auto
  with e3 have "length (alerts r) \<le> 1"
    by (simp add: conj_commute)
  with r s e1 e2 show ?thesis by blast
qed

text \<open>
  The claim as stated fails for a distributor filter that is not a number: the call
  raises and returns no summary, while the same data with the filter ALL give one.
\<close>

theorem summary_filter_counterexample:
  "get_alerts (Some alert_rows) ''ALL'' ''abc'' ''ALL'' = Inl ValueError
   \<and> get_alerts (Some alert_rows) ''ALL'' ''ALL'' ''ALL''
       = Inr \<lparr> summary = \<lparr> high = 1, medium = 1, low = 1 \<rparr>,
               alerts = dedup_alerts (generate_alerts alert_rows) \<rparr>"
  by code_simp

section \<open>Relationship buckets\<close>

lemma relationships_inner:
  "map (\<lambda>r. (f1 r, f2 r))
     (concat (map (\<lambda>(b, j). if i \<noteq> j
                 then [\<lparr> f1 = i, f2 = j, rel_value = v b, rel_abs = fabs (v b) \<rparr>] else [])
        (enumerate m ys)))
   = filter (\<lambda>(a, b). a \<noteq> b) (map (Pair i) ys)"
  by (induction ys arbitrary: m) simp_all

lemma relationships_names:
  "map (\<lambda>r. (f1 r, f2 r)) (relationships corr)
     = filter (\<lambda>(a, b). a \<noteq> b) (List.product (features corr) (features corr))"
proof -
  have "map (\<lambda>r. (f1 r, f2 r))
          (concat (map (\<lambda>(a, i).
             concat (map (\<lambda>(b, j). if i \<noteq> j
                 then [\<lparr> f1 = i, f2 = j, rel_value = matrix corr ! a ! b,
                          rel_abs = fabs (matrix corr ! a ! b) \<rparr>] else [])
               (enumerate 0 ys))) (enumerate m xs)))
        = filter (\<lambda>(a, b). a \<noteq> b) (List.product xs ys)" for xs ys m
  proof (induction xs arbitrary: m)
    case Nil
    then show ?case by simp
  next
    case (Cons x xs)
    then show ?case
      by (simp add: relationships_inner [of x "\<lambda>b. matrix corr ! m ! b" 0 ys])
  qed
  then show ?thesis by (simp add: relationships_def)
qed

lemma relationships_entry:
  assumes "r \<in> set (relationships corr)"
  shows "f1 r \<noteq> f2 r \<and> rel_abs r = fabs (rel_value r)
         \<and> (\<exists>i<length (features corr). \<exists>j<length (features corr).
               f1 r = features corr ! i \<and> f2 r = features corr ! j
               \<and> rel_value r = matrix corr ! i ! j)"
proof -
  from assms obtain a b
    where ab: "a < length (features corr)" "b < length (features corr)"
      and ne: "features corr ! a \<noteq> features corr ! b"
      and r: "r = \<lparr> f1 = features corr ! a, f2 = features corr ! b,
                    rel_value = matrix corr ! a ! b,
                    rel_abs = fabs (matrix corr ! a ! b) \<rparr>"
    by (auto simp: relationships_def in_set_enumerate_eq split: if_splits)
  have "\<exists>i<length (features corr). \<exists>j<length (features corr).
               f1 r = features corr ! i \<and> f2 r = features corr ! j
               \<and> rel_value r = matrix corr ! i ! j"
    by (simp add: r) (use ab in blast)
  with ne show ?thesis by (simp add: r)
qed

lemma relationships_member:
  assumes "i < length (features corr)" and "j < length (features corr)"
    and "features corr ! i \<noteq> features corr ! j"
  shows "\<lparr> f1 = features corr ! i, f2 = features corr ! j,
           rel_value = matrix corr ! i ! j, rel_abs = fabs (matrix corr ! i ! j) \<rparr>
         \<in> set (relationships corr)"
proof -
  let ?fs = "features corr"
  let ?e = "\<lparr> f1 = ?fs ! i, f2 = ?fs ! j,
           rel_value = matrix corr ! i ! j, rel_abs = fabs (matrix corr ! i ! j) \<rparr>"
  let ?inner = "\<lambda>(a, x). concat (map (\<lambda>(b, y).
           if x \<noteq> y
           then [\<lparr> f1 = x, f2 = y, rel_value = matrix corr ! a ! b,
                    rel_abs = fabs (matrix corr ! a ! b) \<rparr>]
           else []) (enumerate 0 ?fs))"
  from assms(1,2) have i: "(i, ?fs ! i) \<in> set (enumerate 0 ?fs)"
    and j: "(j, ?fs ! j) \<in> set (enumerate 0 ?fs)"
    by (simp_all add: in_set_enumerate_eq)
  from j assms(3) have "?e \<in> set (?inner (i, ?fs ! i))"
    by (auto intro!: bexI [of _ "(j, ?fs ! j)"])
  with i have "?e \<in> (\<Union>p\<in>set (enumerate 0 ?fs). set (?inner p))"
    by blast
  then show ?thesis
    by (simp add: relationships_def)
qed

lemma singleton_filter:
  assumes "length (filter P xs) = 1" and "x \<in> set xs" and "P x"
  shows "filter P xs = [x]"
proof -
  from assms(1) obtain y where y: "filter P xs = [y]"
    by (cases "filter P xs") auto
  from assms(2,3) have "x \<in> set (filter P xs)" by simp
  with y show ?thesis by simp
qed

lemma relationships_once:
  assumes "distinct (features corr)"
    and "i < length (features corr)" "j < length (features corr)" "i \<noteq> j"
  shows "filter (\<lambda>r. f1 r = features corr ! i \<and> f2 r = features corr ! j) (relationships corr)
            = [\<lparr> f1 = features corr ! i, f2 = features corr ! j,
                 rel_value = matrix corr ! i ! j, rel_abs = fabs (matrix corr ! i ! j) \<rparr>]"
proof -
  let ?fs = "features corr"
  let ?rels = "relationships corr"
  let ?key = "\<lambda>r. (f1 r, f2 r)"
  let ?e = "\<lparr> f1 = ?fs ! i, f2 = ?fs ! j,
               rel_value = matrix corr ! i ! j, rel_abs = fabs (matrix corr ! i ! j) \<rparr>"
  have dist: "distinct (map ?key ?rels)"
    unfolding relationships_names using assms(1) by (simp add: distinct_product)
  from assms have "?fs ! i \<noteq> ?fs ! j"
    by (simp add: nth_eq_iff_index_eq)
  with assms have mem: "?e \<in> set ?rels"
    by (simp add: relationships_member)
  then have "(?fs ! i, ?fs ! j) \<in> ?key ` set ?rels"
    by force
  with dist have "length (filter (\<lambda>r. ?key r = (?fs ! i, ?fs ! j)) ?rels) = 1"
    by (rule distinct_key_filter_one)
  then have "length (filter (\<lambda>r. f1 r = ?fs ! i \<and> f2 r = ?fs ! j) ?rels) = 1"
    by simp
  from singleton_filter [OF this mem] show ?thesis by simp
qed

lemma bucket_filters:
  "bucket_relationships (relationships corr) =
     \<lparr> strong = take 5 (filter (\<lambda>r. fge (fabs (rel_value r)) (Fin (75 / 100)))
                         (relationships corr)),
       moderate = take 5 (filter (\<lambda>r. fge (fabs (rel_value r)) (Fin (4 / 10))
                                       \<and> flt (fabs (rel_value r)) (Fin (75 / 100)))
                           (relationships corr)),
       inverse = take 5 (filter (\<lambda>r. fle (rel_value r) (Fin (- (4 / 10))))
                          (relationships corr)) \<rparr>"
proof -
  have abs: "rel_abs r = fabs (rel_value r)" if "r \<in> set (relationships corr)" for r
    using relationships_entry [OF that] by simp
  have s: "filter (\<lambda>r. fge (rel_abs r) (Fin (75 / 100))) (relationships corr)
          = filter (\<lambda>r. fge (fabs (rel_value r)) (Fin (75 / 100))) (relationships corr)"
    by (rule filter_cong) (simp_all add: abs)
  have m: "filter (\<lambda>r. fge (rel_abs r) (Fin (4 / 10)) \<and> flt (rel_abs r) (Fin (75 / 100)))
            (relationships corr)
          = filter (\<lambda>r. fge (fabs (rel_value r)) (Fin (4 / 10))
                            \<and> flt (fabs (rel_value r)) (Fin (75 / 100))) (relationships corr)"
    by (rule filter_cong) (simp_all add: abs)
  show ?thesis
    unfolding bucket_relationships_def s m ..
qed

lemma distinct_first_two:
  assumes "distinct xs" and "2 \<le> length xs"
  shows "xs ! 0 \<noteq> xs ! 1"
proof -
  from assms(2) obtain a b ys where "xs = a # b # ys"
    by (cases xs; cases "tl xs") auto
  with assms(1) show ?thesis by simp
qed

lemma corr_round2_features: "features (corr_round2 numeric_df) = map col_name numeric_df"
  by (simp add: corr_round2_def)

text \<open>The reply of the correlation endpoint for at least two numeric columns.\<close>

lemma correlation_analysis_reply:
  assumes "2 \<le> length (select_dtypes df)" and "distinct (map col_name (select_dtypes df))"
  shows "correlation_analysis (Some df)
           = Inr \<lparr> heatmap = corr_round2 (select_dtypes df),
                   key_rel = bucket_relationships
                               (relationships (corr_round2 (select_dtypes df))) \<rparr>"
proof -
  let ?corr = "corr_round2 (select_dtypes df)"
  have fs: "features ?corr = map col_name (select_dtypes df)"
    by (rule corr_round2_features)
  from assms have "distinct (features ?corr)" and "2 \<le> length (features ?corr)"
    unfolding fs by simp_all
  then have "features ?corr ! 0 \<noteq> features ?corr ! 1"
    by (rule distinct_first_two)
  moreover from assms(1) have "0 < length (features ?corr)" "1 < length (features ?corr)"
    unfolding fs by auto
  ultimately have "relationships ?corr \<noteq> []"
    using relationships_member [of 0 ?corr 1] by auto
  with assms(1) show ?thesis
    by (simp add: correlation_analysis_def get_attr_def Let_def)
qed

text \<open>
  Claim C8, amended.  For a frame with at least two numeric columns of distinct names
  the correlation endpoint replies.  Its relationship list runs through the ordered
  pairs of distinct features in row-major order of the feature list, so each unordered
  pair appears exactly twice, once in each orientation, with the matrix entry of that
  position as value.  Each bucket holds the first five entries of that list, in list
  order, that satisfy its condition: absolute value at least 0.75 for strong, at least
  0.4 and below 0.75 for moderate, signed value at most -0.4 for inverse.  No bucket is
  ordered or chosen by the size of the correlation.
\<close>

theorem buckets_first_five:
  assumes "2 \<le> length (select_dtypes df)" and "distinct (map col_name (select_dtypes df))"
  shows "\<exists>resp. correlation_analysis (Some df) = Inr resp
    \<and> features (heatmap resp) = map col_name (select_dtypes df)
    \<and> map (\<lambda>r. (f1 r, f2 r)) (relationships (heatmap resp))
        = filter (\<lambda>(a, b). a \<noteq> b)
            (List.product (features (heatmap resp)) (features (heatmap resp)))
    \<and> (\<forall>i<length (features (heatmap resp)). \<forall>j<length (features (heatmap resp)). i \<noteq> j \<longrightarrow>
          filter (\<lambda>r. f1 r = features (heatmap resp) ! i \<and> f2 r = features (heatmap resp) ! j)
              (relationships (heatmap resp))
            = [\<lparr> f1 = features (heatmap resp) ! i, f2 = features (heatmap resp) ! j,
                 rel_value = matrix (heatmap resp) ! i ! j,
                 rel_abs = fabs (matrix (heatmap resp) ! i ! j) \<rparr>])
    \<and> key_rel resp =
        \<lparr> strong = take 5 (filter (\<lambda>r. fge (fabs (rel_value r)) (Fin (75 / 100)))
                            (relationships (heatmap resp))),
          moderate = take 5 (filter (\<lambda>r. fge (fabs (rel_value r)) (Fin (4 / 10))
                                          \<and> flt (fabs (rel_value r)) (Fin (75 / 100)))
                              (relationships (heatmap resp))),
          inverse = take 5 (filter (\<lambda>r. fle (rel_value r) (Fin (- (4 / 10))))
                             (relationships (heatmap resp))) \<rparr>"
proof -
  let ?corr = "corr_round2 (select_dtypes df)"
  let ?resp = "\<lparr> heatmap = ?corr, key_rel = bucket_relationships (relationships ?corr) \<rparr>"
  have r: "correlation_analysis (Some df) = Inr ?resp"
    using assms by (rule correlation_analysis_reply)
  have fs: "features (heatmap ?resp) = map col_name (select_dtypes df)"
    by (simp add: corr_round2_features)
  with assms(2) have d: "distinct (features (heatmap ?resp))" by simp
  have n: "map (\<lambda>r. (f1 r, f2 r)) (relationships (heatmap ?resp))
        = filter (\<lambda>(a, b). a \<noteq> b)
            (List.product (features (heatmap ?resp)) (features (heatmap ?resp)))"
    by (rule relationships_names)
  have o: "\<forall>i<length (features (heatmap ?resp)). \<forall>j<length (features (heatmap ?resp)). i \<noteq> j \<longrightarrow>
          filter (\<lambda>r. f1 r = features (heatmap ?resp) ! i \<and> f2 r = features (heatmap ?resp) ! j)
              (relationships (heatmap ?resp))
            = [\<lparr> f1 = features (heatmap ?resp) ! i, f2 = features (heatmap ?resp) ! j,
                 rel_value = matrix (heatmap ?resp) ! i ! j,
                 rel_abs = fabs (matrix (heatmap ?resp) ! i ! j) \<rparr>]"
    using relationships_once [OF d] by blast
  have k: "key_rel ?resp =
        \<lparr> strong = take 5 (filter (\<lambda>r. fge (fabs (rel_value r)) (Fin (75 / 100)))
                            (relationships (heatmap ?resp))),
          moderate = take 5 (filter (\<lambda>r. fge (fabs (rel_value r)) (Fin (4 / 10))
                                          \<and> flt (fabs (rel_value r)) (Fin (75 / 100)))
                              (relationships (heatmap ?resp))),
          inverse = take 5 (filter (\<lambda>r. fle (rel_value r) (Fin (- (4 / 10))))
                             (relationships (heatmap ?resp))) \<rparr>"
    using bucket_filters [of ?corr] by simp
  from r fs n o k show ?thesis by blast
qed


lemma sqrt_100: "sqrt 100 = 10"
  using real_sqrt_abs [of 10] by simp

lemma permuted_pairs:
  "nancorr_pair [Fin 1, Fin 2, Fin 3, Fin 4, Fin 5] [Fin 1, Fin 2, Fin 3, Fin 4, Fin 5] = Fin 1"
  "nancorr_pair [Fin 2, Fin 1, Fin 4, Fin 3, Fin 5] [Fin 1, Fin 2, Fin 3, Fin 4, Fin 5] = Fin (8 / 10)"
  "nancorr_pair [Fin 2, Fin 1, Fin 4, Fin 3, Fin 5] [Fin 2, Fin 1, Fin 4, Fin 3, Fin 5] = Fin 1"
  "nancorr_pair [Fin 2, Fin 1, Fin 3, Fin 4, Fin 5] [Fin 1, Fin 2, Fin 3, Fin 4, Fin 5] = Fin (9 / 10)"
  "nancorr_pair [Fin 2, Fin 1, Fin 3, Fin 4, Fin 5] [Fin 2, Fin 1, Fin 4, Fin 3, Fin 5] = Fin (9 / 10)"
  "nancorr_pair [Fin 2, Fin 1, Fin 3, Fin 4, Fin 5] [Fin 2, Fin 1, Fin 3, Fin 4, Fin 5] = Fin 1"
  by (simp_all add: nancorr_pair_def welford_step_def welford_init_def Let_def sqrt_100)

lemma permuted_frame: "corr_round2 (select_dtypes permuted_df) = permuted_corr"
  by (simp add: corr_round2_def select_dtypes_def permuted_df_def permuted_corr_def nancorr_def
      upt_rec permuted_pairs fin_def max_float_def rint_def)

lemma permuted_buckets:
  "bucket_relationships (relationships permuted_corr)
   = \<lparr> strong = [rel ''A'' ''B'' (8 / 10), rel ''A'' ''C'' (9 / 10), rel ''B'' ''A'' (8 / 10),
                 rel ''B'' ''C'' (9 / 10), rel ''C'' ''A'' (9 / 10)],
       moderate = [], inverse = [] \<rparr>"
  by code_simp

lemma permuted_numeric:
  "2 \<le> length (select_dtypes permuted_df)" "distinct (map col_name (select_dtypes permuted_df))"
  by code_simp+

theorem buckets_first_five_witness:
  "\<exists>resp. correlation_analysis (Some permuted_df) = Inr resp
     \<and> features (heatmap resp) = [''A'', ''B'', ''C'']
     \<and> filter (\<lambda>r. f1 r = ''C'' \<and> f2 r = ''B'') (relationships (heatmap resp))
         = [rel ''C'' ''B'' (9 / 10)]
     \<and> strong (key_rel resp)
         = [rel ''A'' ''B'' (8 / 10), rel ''A'' ''C'' (9 / 10), rel ''B'' ''A'' (8 / 10),
            rel ''B'' ''C'' (9 / 10), rel ''C'' ''A'' (9 / 10)]"
proof -
  from buckets_first_five [OF permuted_numeric] obtain resp
    where r: "correlation_analysis (Some permuted_df) = Inr resp"
      and once: "\<forall>i<length (features (heatmap resp)). \<forall>j<length (features (heatmap resp)).
          i \<noteq> j \<longrightarrow>
          filter (\<lambda>r. f1 r = features (heatmap resp) ! i \<and> f2 r = features (heatmap resp) ! j)
              (relationships (heatmap resp))
            = [\<lparr> f1 = features (heatmap resp) ! i, f2 = features (heatmap resp) ! j,
                 rel_value = matrix (heatmap resp) ! i ! j,
                 rel_abs = fabs (matrix (heatmap resp) ! i ! j) \<rparr>]"
      and k: "key_rel resp =
        \<lparr> strong = take 5 (filter (\<lambda>r. fge (fabs (rel_value r)) (Fin (75 / 100)))
                            (relationships (heatmap resp))),
          moderate = take 5 (filter (\<lambda>r. fge (fabs (rel_value r)) (Fin (4 / 10))
                                          \<and> flt (fabs (rel_value r)) (Fin (75 / 100)))
                              (relationships (heatmap resp))),
          inverse = take 5 (filter (\<lambda>r. fle (rel_value r) (Fin (- (4 / 10))))
                             (relationships (heatmap resp))) \<rparr>"
    by blast
  from r correlation_analysis_reply [OF permuted_numeric]
  have h: "heatmap resp = permuted_corr"
    by (auto simp: permuted_frame)
  have fs: "features permuted_corr = [''A'', ''B'', ''C'']"
    by (simp add: permuted_corr_def)
  have e: "\<lparr> f1 = ''C'', f2 = ''B'',
             rel_value = matrix permuted_corr ! 2 ! 1,
             rel_abs = fabs (matrix permuted_corr ! 2 ! 1) \<rparr> = rel ''C'' ''B'' (9 / 10)"
    by code_simp
  have s: "take 5 (filter (\<lambda>r. fge (fabs (rel_value r)) (Fin (75 / 100)))
                    (relationships permuted_corr))
         = [rel ''A'' ''B'' (8 / 10), rel ''A'' ''C'' (9 / 10), rel ''B'' ''A'' (8 / 10),
            rel ''B'' ''C'' (9 / 10), rel ''C'' ''A'' (9 / 10)]"
    by code_simp
  have "2 < length (features permuted_corr)" "1 < length (features permuted_corr)"
    "features permuted_corr ! 2 = ''C''" "features permuted_corr ! 1 = ''B''"
    by (simp_all add: fs)
  with once [unfolded h, rule_format, of 2 1]
  have c: "filter (\<lambda>r. f1 r = ''C'' \<and> f2 r = ''B'') (relationships permuted_corr)
         = [rel ''C'' ''B'' (9 / 10)]"
    unfolding e [symmetric] by simp
  have st: "strong (key_rel resp)
         = [rel ''A'' ''B'' (8 / 10), rel ''A'' ''C'' (9 / 10), rel ''B'' ''A'' (8 / 10),
            rel ''B'' ''C'' (9 / 10), rel ''C'' ''A'' (9 / 10)]"
    unfolding k h by (simp only: key_relationships.select_convs s)
  show ?thesis
  proof (intro exI conjI)
    show "correlation_analysis (Some permuted_df) = Inr resp" by (rule r)
    show "features (heatmap resp) = [''A'', ''B'', ''C'']" unfolding h by (rule fs)
    show "filter (\<lambda>r. f1 r = ''C'' \<and> f2 r = ''B'') (relationships (heatmap resp))
         = [rel ''C'' ''B'' (9 / 10)]" unfolding h by (rule c)
    show "strong (key_rel resp)
         = [rel ''A'' ''B'' (8 / 10), rel ''A'' ''C'' (9 / 10), rel ''B'' ''A'' (8 / 10),
            rel ''B'' ''C'' (9 / 10), rel ''C'' ''A'' (9 / 10)]" by (rule st)
  qed
qed

text \<open>
  The claim as stated fails: the strong bucket is not chosen by falling absolute value.
  In the frame of three rearranged columns all six ordered pairs are strong.  The pair
  (C, B) with correlation 0.9 comes sixth in the list and is left out, while (A, B) and
  (B, A) with the smaller correlation 0.8 are in the bucket.
\<close>

theorem strong_bucket_not_top_counterexample:
  "correlation_analysis (Some permuted_df)
     = Inr \<lparr> heatmap = permuted_corr,
             key_rel = \<lparr> strong = [rel ''A'' ''B'' (8 / 10), rel ''A'' ''C'' (9 / 10),
                                   rel ''B'' ''A'' (8 / 10), rel ''B'' ''C'' (9 / 10),
                                   rel ''C'' ''A'' (9 / 10)],
                         moderate = [], inverse = [] \<rparr> \<rparr>
   \<and> rel ''C'' ''B'' (9 / 10) \<in> set (relationships permuted_corr)
   \<and> rel ''C'' ''B'' (9 / 10)
       \<notin> set [rel ''A'' ''B'' (8 / 10), rel ''A'' ''C'' (9 / 10), rel ''B'' ''A'' (8 / 10),
               rel ''B'' ''C'' (9 / 10), rel ''C'' ''A'' (9 / 10)]
   \<and> flt (rel_abs (rel ''A'' ''B'' (8 / 10))) (rel_abs (rel ''C'' ''B'' (9 / 10)))"
proof -
  have "correlation_analysis (Some permuted_df)
     = Inr \<lparr> heatmap = permuted_corr,
             key_rel = bucket_relationships (relationships permuted_corr) \<rparr>"
    using correlation_analysis_reply [OF permuted_numeric] by (simp add: permuted_frame)
  moreover have "rel ''C'' ''B'' (9 / 10) \<in> set (relationships permuted_corr)"
    by code_simp
  moreover have "rel ''C'' ''B'' (9 / 10)
       \<notin> set [rel ''A'' ''B'' (8 / 10), rel ''A'' ''C'' (9 / 10), rel ''B'' ''A'' (8 / 10),
               rel ''B'' ''C'' (9 / 10), rel ''C'' ''A'' (9 / 10)]"
    by code_simp
  moreover have "flt (rel_abs (rel ''A'' ''B'' (8 / 10))) (rel_abs (rel ''C'' ''B'' (9 / 10)))"
    by code_simp
  ultimately show ?thesis
    unfolding permuted_buckets by blast
qed

section \<open>Correlation matrix\<close>













end
